theory Spec2Isabelle
  imports Complex_Main "HOL-Library.Word"
begin

section \<open>The CredexPool contract\<close>

text \<open>
  A shallow embedding of the share-based \<^verbatim>\<open>CredexPool\<close> contract (the version with
  \<^verbatim>\<open>lpShares\<close>, \<^verbatim>\<open>principal\<close> and \<^verbatim>\<open>globalTotalDebt\<close>) and of the TypeScript clearing
  agent that drives it.

  Solidity \<^verbatim>\<open>uint256\<close> is \<open>256 word\<close> and \<^verbatim>\<open>address\<close> is \<open>160 word\<close>. The contract is
  compiled with Solidity 0.8, whose arithmetic is checked: an overflow, an underflow or a
  division by zero aborts the call. Every call returns \<open>error + pool\<close>: \<open>Inl\<close> is a revert
  (storage unchanged), \<open>Inr\<close> the storage after the call. A \<^verbatim>\<open>require\<close> that fails is
  \<open>Revert\<close> with the message of the source.

  The token is an external contract. What the model keeps of a call to it is whether it
  returns or reverts: \<open>usdc_ok\<close> of the call environment (real USDC reverts when balance or
  allowance are short). The boolean it returns is ignored by the source too. The token does
  not call back into the pool, and events are not part of the storage.
\<close>

type_synonym uint256 = "256 word"
type_synonym address = "160 word"

datatype error =
    Revert string
  | ArithmeticPanic
  | DivisionByZero
  | TransferReverted

definition and_then :: "error + 'a \<Rightarrow> ('a \<Rightarrow> error + 'b) \<Rightarrow> error + 'b" where
  "and_then m f = (case m of Inl x \<Rightarrow> Inl x | Inr v \<Rightarrow> f v)"

definition checked_add :: "uint256 \<Rightarrow> uint256 \<Rightarrow> error + uint256" where
  "checked_add a b = (if unat a + unat b < 2 ^ 256 then Inr (a + b) else Inl ArithmeticPanic)"

definition checked_sub :: "uint256 \<Rightarrow> uint256 \<Rightarrow> error + uint256" where
  "checked_sub a b = (if unat b \<le> unat a then Inr (a - b) else Inl ArithmeticPanic)"

definition checked_mul :: "uint256 \<Rightarrow> uint256 \<Rightarrow> error + uint256" where
  "checked_mul a b = (if unat a * unat b < 2 ^ 256 then Inr (a * b) else Inl ArithmeticPanic)"

definition checked_div :: "uint256 \<Rightarrow> uint256 \<Rightarrow> error + uint256" where
  "checked_div a b = (if b = 0 then Inl DivisionByZero else Inr (a div b))"

record AgentAccount =
  debt :: uint256
  principal :: uint256
  creditLimit :: uint256
  lastAccrued :: uint256
  lastRepayment :: uint256
  frozen :: bool
  active :: bool

record pool =
  credexAgent :: address
  owner :: address
  agents :: "address \<Rightarrow> AgentAccount"
  lpShares :: "address \<Rightarrow> uint256"
  totalShares :: uint256
  totalLiquidity :: uint256
  globalTotalDebt :: uint256

text \<open>The environment of one call: \<^verbatim>\<open>msg.sender\<close>, \<^verbatim>\<open>block.timestamp\<close>, and whether the
  call's token transfer returns.\<close>

record env =
  msg_sender :: address
  block_timestamp :: uint256
  usdc_ok :: bool

definition INTEREST_RATE_BP :: uint256 where
  "INTEREST_RATE_BP = 10"

definition ACCRUAL_INTERVAL :: uint256 where
  "ACCRUAL_INTERVAL = 60"

text \<open>Storage of a contract starts zeroed; the constructor sets the two roles.\<close>

definition zero_account :: AgentAccount where
  "zero_account = \<lparr>debt = 0, principal = 0, creditLimit = 0, lastAccrued = 0,
     lastRepayment = 0, frozen = False, active = False\<rparr>"

definition constructor :: "env \<Rightarrow> address \<Rightarrow> pool" where
  "constructor e agent = \<lparr>credexAgent = agent, owner = msg_sender e,
     agents = (\<lambda>_. zero_account), lpShares = (\<lambda>_. 0),
     totalShares = 0, totalLiquidity = 0, globalTotalDebt = 0\<rparr>"

definition onlyAgent :: "env \<Rightarrow> pool \<Rightarrow> (error + pool) \<Rightarrow> error + pool" where
  "onlyAgent e s body =
     (if msg_sender e = credexAgent s then body else Inl (Revert ''Not Credex agent''))"

definition onlyOwner :: "env \<Rightarrow> pool \<Rightarrow> (error + pool) \<Rightarrow> error + pool" where
  "onlyOwner e s body =
     (if msg_sender e = owner s then body else Inl (Revert ''Not owner''))"

subsection \<open>Views\<close>

definition totalDebt :: "pool \<Rightarrow> uint256" where
  "totalDebt s = globalTotalDebt s"

definition totalAssets :: "pool \<Rightarrow> error + uint256" where
  "totalAssets s = checked_add (totalLiquidity s) (totalDebt s)"

definition availableCredit :: "pool \<Rightarrow> address \<Rightarrow> uint256" where
  "availableCredit s agent =
     (let acc = agents s agent in
      if \<not> active acc \<or> frozen acc then 0
      else if creditLimit acc \<le> principal acc then 0
      else creditLimit acc - principal acc)"

text \<open>\<^verbatim>\<open>getAgentState\<close> adds the interest not yet folded into the stored debt. The divisions
  by the constants \<^verbatim>\<open>ACCRUAL_INTERVAL\<close> and \<^verbatim>\<open>10000\<close> cannot fail.\<close>

definition pendingInterest :: "env \<Rightarrow> AgentAccount \<Rightarrow> error + uint256" where
  "pendingInterest e acc =
     (if lastAccrued acc > 0 \<and> debt acc > 0 then
        and_then (checked_sub (block_timestamp e) (lastAccrued acc)) (\<lambda>elapsed.
        let intervals = elapsed div ACCRUAL_INTERVAL in
        if intervals > 0 then
          and_then (checked_mul (debt acc) INTEREST_RATE_BP) (\<lambda>p.
          and_then (checked_mul p intervals) (\<lambda>q. Inr (q div 10000)))
        else Inr 0)
      else Inr 0)"

definition getAgentState :: "env \<Rightarrow> pool \<Rightarrow> address \<Rightarrow> error + AgentAccount" where
  "getAgentState e s agent =
     (let acc = agents s agent in
      and_then (pendingInterest e acc) (\<lambda>pending.
      and_then (checked_add (debt acc) pending) (\<lambda>d.
      Inr (acc\<lparr>debt := d\<rparr>))))"

subsection \<open>Liquidity providers\<close>

definition deposit :: "env \<Rightarrow> uint256 \<Rightarrow> pool \<Rightarrow> error + pool" where
  "deposit e assets s =
     (if \<not> assets > 0 then Inl (Revert ''Zero amount'')
      else
        and_then (totalAssets s) (\<lambda>ta.
        let ts = totalShares s in
        and_then (if ts = 0 then Inr assets
                  else and_then (checked_mul assets ts) (\<lambda>p. checked_div p ta)) (\<lambda>shares.
        if \<not> usdc_ok e then Inl TransferReverted
        else
          and_then (checked_add (lpShares s (msg_sender e)) shares) (\<lambda>lp.
          and_then (checked_add (totalShares s) shares) (\<lambda>ts'.
          and_then (checked_add (totalLiquidity s) assets) (\<lambda>tl.
          Inr (s\<lparr>lpShares := (lpShares s)(msg_sender e := lp),
                 totalShares := ts', totalLiquidity := tl\<rparr>)))))))"

definition withdraw :: "env \<Rightarrow> uint256 \<Rightarrow> pool \<Rightarrow> error + pool" where
  "withdraw e shares s =
     (if \<not> shares > 0 then Inl (Revert ''Zero shares'')
      else if \<not> lpShares s (msg_sender e) \<ge> shares then Inl (Revert ''Insufficient shares'')
      else
        and_then (totalAssets s) (\<lambda>ta.
        let ts = totalShares s in
        and_then (checked_mul shares ta) (\<lambda>p.
        and_then (checked_div p ts) (\<lambda>assets.
        if \<not> totalLiquidity s \<ge> assets then Inl (Revert ''Insufficient pool liquidity'')
        else
          and_then (checked_sub (lpShares s (msg_sender e)) shares) (\<lambda>lp.
          and_then (checked_sub (totalShares s) shares) (\<lambda>ts'.
          and_then (checked_sub (totalLiquidity s) assets) (\<lambda>tl.
          if \<not> usdc_ok e then Inl TransferReverted
          else Inr (s\<lparr>lpShares := (lpShares s)(msg_sender e := lp),
                      totalShares := ts', totalLiquidity := tl\<rparr>))))))))"

subsection \<open>Agent accounts\<close>

definition onboardAgent :: "env \<Rightarrow> address \<Rightarrow> uint256 \<Rightarrow> pool \<Rightarrow> error + pool" where
  "onboardAgent e agent limit s = onlyAgent e s
     (if \<not> \<not> active (agents s agent) then Inl (Revert ''Already onboarded'')
      else Inr (s\<lparr>agents := (agents s)(agent :=
             \<lparr>debt = 0, principal = 0, creditLimit = limit,
              lastAccrued = block_timestamp e, lastRepayment = block_timestamp e,
              frozen = False, active = True\<rparr>)\<rparr>))"

definition setCreditLimit :: "env \<Rightarrow> address \<Rightarrow> uint256 \<Rightarrow> pool \<Rightarrow> error + pool" where
  "setCreditLimit e agent newLimit s = onlyAgent e s
     (if \<not> active (agents s agent) then Inl (Revert ''Not active'')
      else Inr (s\<lparr>agents := (agents s)(agent := (agents s agent)\<lparr>creditLimit := newLimit\<rparr>)\<rparr>))"

text \<open>\<^verbatim>\<open>_accrueInterest\<close>. The early return leaves the whole account, watermark included,
  as it is.\<close>

definition accrueInterest :: "env \<Rightarrow> address \<Rightarrow> pool \<Rightarrow> error + pool" where
  "accrueInterest e agent s =
     (let acc = agents s agent in
      if lastAccrued acc = 0 \<or> debt acc = 0 then Inr s
      else
        and_then (checked_sub (block_timestamp e) (lastAccrued acc)) (\<lambda>elapsed.
        let intervals = elapsed div ACCRUAL_INTERVAL in
        if intervals > 0 then
          and_then (checked_mul (debt acc) INTEREST_RATE_BP) (\<lambda>p.
          and_then (checked_mul p intervals) (\<lambda>q.
          let interest = q div 10000 in
          and_then (checked_add (debt acc) interest) (\<lambda>d.
          and_then (checked_add (globalTotalDebt s) interest) (\<lambda>g.
          and_then (checked_mul intervals ACCRUAL_INTERVAL) (\<lambda>m.
          and_then (checked_add (lastAccrued acc) m) (\<lambda>la.
          Inr (s\<lparr>agents := (agents s)(agent := acc\<lparr>debt := d, lastAccrued := la\<rparr>),
                 globalTotalDebt := g\<rparr>)))))))
        else Inr s))"

definition borrow :: "env \<Rightarrow> address \<Rightarrow> uint256 \<Rightarrow> pool \<Rightarrow> error + pool" where
  "borrow e agent amount s = onlyAgent e s
     (if \<not> active (agents s agent) then Inl (Revert ''Not active'')
      else if \<not> \<not> frozen (agents s agent) then Inl (Revert ''Account frozen'')
      else
        and_then (accrueInterest e agent s) (\<lambda>s1.
        let acc = agents s1 agent in
        and_then (checked_add (principal acc) amount) (\<lambda>wanted.
        if \<not> wanted \<le> creditLimit acc then Inl (Revert ''Exceeds limit'')
        else if \<not> totalLiquidity s1 \<ge> amount then Inl (Revert ''Insufficient liquidity'')
        else
          and_then (checked_add (principal acc) amount) (\<lambda>p.
          and_then (checked_add (debt acc) amount) (\<lambda>d.
          and_then (checked_sub (totalLiquidity s1) amount) (\<lambda>tl.
          and_then (checked_add (globalTotalDebt s1) amount) (\<lambda>g.
          if \<not> usdc_ok e then Inl TransferReverted
          else Inr (s1\<lparr>agents := (agents s1)(agent := acc\<lparr>principal := p, debt := d\<rparr>),
                       totalLiquidity := tl, globalTotalDebt := g\<rparr>))))))))"

definition repay :: "env \<Rightarrow> address \<Rightarrow> uint256 \<Rightarrow> pool \<Rightarrow> error + pool" where
  "repay e agent amount0 s = onlyAgent e s
     (if \<not> active (agents s agent) then Inl (Revert ''Not active'')
      else
        and_then (accrueInterest e agent s) (\<lambda>s1.
        let acc = agents s1 agent;
            amount = (if amount0 > debt acc then debt acc else amount0) in
        if \<not> usdc_ok e then Inl TransferReverted
        else
          and_then (checked_sub (debt acc) (principal acc)) (\<lambda>interestOwed.
          and_then (if amount \<le> interestOwed
                    then and_then (checked_sub (debt acc) amount) (\<lambda>d. Inr (acc\<lparr>debt := d\<rparr>))
                    else and_then (checked_sub amount interestOwed) (\<lambda>principalRepaid.
                         and_then (checked_sub (debt acc) amount) (\<lambda>d.
                         and_then (checked_sub (principal acc) principalRepaid) (\<lambda>p.
                         Inr (acc\<lparr>debt := d, principal := p\<rparr>))))) (\<lambda>acc1.
          and_then (checked_sub (globalTotalDebt s1) amount) (\<lambda>g.
          and_then (checked_add (totalLiquidity s1) amount) (\<lambda>tl.
          Inr (s1\<lparr>agents := (agents s1)(agent := acc1\<lparr>lastRepayment := block_timestamp e\<rparr>),
                  globalTotalDebt := g, totalLiquidity := tl\<rparr>)))))))"

definition freeze :: "env \<Rightarrow> address \<Rightarrow> pool \<Rightarrow> error + pool" where
  "freeze e agent s = onlyAgent e s
     (if \<not> active (agents s agent) then Inl (Revert ''Not active'')
      else Inr (s\<lparr>agents := (agents s)(agent := (agents s agent)\<lparr>frozen := True\<rparr>)\<rparr>))"

definition unfreeze :: "env \<Rightarrow> address \<Rightarrow> pool \<Rightarrow> error + pool" where
  "unfreeze e agent s = onlyAgent e s
     (if \<not> active (agents s agent) then Inl (Revert ''Not active'')
      else Inr (s\<lparr>agents := (agents s)(agent := (agents s agent)\<lparr>frozen := False\<rparr>)\<rparr>))"

definition setAgent :: "env \<Rightarrow> address \<Rightarrow> pool \<Rightarrow> error + pool" where
  "setAgent e newAgent s = onlyOwner e s (Inr (s\<lparr>credexAgent := newAgent\<rparr>))"

subsection \<open>Transactions\<close>

text \<open>
  A transaction is one external call in its environment; a call that reverts leaves the
  storage as it was. \<open>AccrueInterest\<close> is the internal \<^verbatim>\<open>_accrueInterest\<close> taken as a step
  of its own, so that runs cover interest accrual outside \<^verbatim>\<open>borrow\<close> and \<^verbatim>\<open>repay\<close> as well.
\<close>

datatype call =
    Deposit uint256
  | Withdraw uint256
  | OnboardAgent address uint256
  | SetCreditLimit address uint256
  | Borrow address uint256
  | Repay address uint256
  | Freeze address
  | Unfreeze address
  | SetAgent address
  | AccrueInterest address

fun exec :: "env \<Rightarrow> call \<Rightarrow> pool \<Rightarrow> error + pool" where
  "exec e (Deposit assets) s = deposit e assets s"
| "exec e (Withdraw shares) s = withdraw e shares s"
| "exec e (OnboardAgent agent limit) s = onboardAgent e agent limit s"
| "exec e (SetCreditLimit agent limit) s = setCreditLimit e agent limit s"
| "exec e (Borrow agent amount) s = borrow e agent amount s"
| "exec e (Repay agent amount) s = repay e agent amount s"
| "exec e (Freeze agent) s = freeze e agent s"
| "exec e (Unfreeze agent) s = unfreeze e agent s"
| "exec e (SetAgent agent) s = setAgent e agent s"
| "exec e (AccrueInterest agent) s = accrueInterest e agent s"

definition transact :: "env \<Rightarrow> call \<Rightarrow> pool \<Rightarrow> pool" where
  "transact e c s = (case exec e c s of Inl _ \<Rightarrow> s | Inr s' \<Rightarrow> s')"

fun run :: "(env \<times> call) list \<Rightarrow> pool \<Rightarrow> pool" where
  "run [] s = s"
| "run ((e, c) # txs) s = run txs (transact e c s)"

section \<open>The clearing agent\<close>

text \<open>
  \<^verbatim>\<open>CredexClearing\<close> talks to the contract through \<^verbatim>\<open>PoolClient\<close>; every method is
  wrapped in \<^verbatim>\<open>try\<close>/\<^verbatim>\<open>catch\<close> and answers with a \<^verbatim>\<open>CredexResponse\<close>. In the model a
  handler takes the contract storage and returns the response with the storage it leaves.

  What lies outside the repository is a parameter, collected in \<open>world\<close>:
  \<^item> \<open>signer\<close>, the agent's wallet, sender of every call;
  \<^item> \<open>clock k\<close> and \<open>token_ok k\<close>, the block timestamp and the token's answer at the
    \<open>k\<close>-th contract interaction of a request (time passes between them);
  \<^item> \<open>feedback\<close>, the scores of the \<^verbatim>\<open>NewFeedback\<close> events the registry returns for an
    agent id, \<open>None\<close> when the query throws;
  \<^item> \<open>BigInt_of\<close> and \<open>parseUnits\<close>, the conversions of the JavaScript runtime and of
    ethers, \<open>None\<close> when they throw;
  \<^item> \<open>fl_mul\<close> and \<open>fl_div\<close>, multiplication and division of IEEE-754 doubles.
  A JavaScript number is the real it denotes. \<^verbatim>\<open>bigint\<close> is \<open>int\<close>; its division truncates
  towards zero. \<^verbatim>\<open>ethers.formatUnits\<close> only renders an integer as text, so responses keep
  the integer. The write-only in-memory \<^verbatim>\<open>agents\<close> map of the class is left out.
\<close>

record world =
  signer :: address
  clock :: "nat \<Rightarrow> uint256"
  token_ok :: "nat \<Rightarrow> bool"
  feedback :: "int \<Rightarrow> nat list option"
  BigInt_of :: "string \<Rightarrow> int option"
  parseUnits :: "string \<Rightarrow> int option"
  fl_mul :: "real \<Rightarrow> real \<Rightarrow> real"
  fl_div :: "real \<Rightarrow> real \<Rightarrow> real"

definition env_at :: "world \<Rightarrow> nat \<Rightarrow> env" where
  "env_at w k = \<lparr>msg_sender = signer w, block_timestamp = clock w k, usdc_ok = token_ok w k\<rparr>"

definition bigint_div :: "int \<Rightarrow> int \<Rightarrow> int" where
  "bigint_div a b = sgn a * sgn b * (\<bar>a\<bar> div \<bar>b\<bar>)"

text \<open>A \<^verbatim>\<open>uint256\<close> argument is encoded by ethers, which throws on a value out of range.\<close>

definition encode_uint256 :: "int \<Rightarrow> uint256 option" where
  "encode_uint256 v = (if 0 \<le> v \<and> v < 2 ^ 256 then Some (word_of_int v) else None)"

subsection \<open>Reputation reader\<close>

text \<open>The double written \<^verbatim>\<open>0.1\<close> is \<open>3602879701896397 / 2 ^ 55\<close>; \<^verbatim>\<open>1.0\<close>, \<^verbatim>\<open>3.0\<close> and
  \<^verbatim>\<open>100\<close> are exact. Sums of scores are integers far below \<open>2 ^ 53\<close>, hence exact.\<close>

definition double_0_1 :: real where
  "double_0_1 = 3602879701896397 / 2 ^ 55"

definition getFeedbackEntries :: "world \<Rightarrow> int \<Rightarrow> nat list" where
  "getFeedbackEntries w agentId = (case feedback w agentId of None \<Rightarrow> [] | Some entries \<Rightarrow> entries)"

definition calculateReputationScore :: "world \<Rightarrow> int \<Rightarrow> real option" where
  "calculateReputationScore w agentId =
     (let entries = getFeedbackEntries w agentId in
      if length entries = 0 then None
      else
        let scores = entries;
            sum = sum_list scores;
            average = fl_div w (real sum) (real (length scores))
        in Some average)"

text \<open>\<open>None\<close>: the call throws (only \<^verbatim>\<open>BigInt(agentId)\<close> can).\<close>

definition getRepFactorByAgentId :: "world \<Rightarrow> string \<Rightarrow> real option" where
  "getRepFactorByAgentId w agentId =
     (case BigInt_of w agentId of
        None \<Rightarrow> None
      | Some agentIdBigInt \<Rightarrow>
          if agentIdBigInt = 0 then Some 1
          else (case calculateReputationScore w agentIdBigInt of
                  None \<Rightarrow> Some 1
                | Some score \<Rightarrow> Some (max double_0_1 (min 3 (fl_div w score 100)))))"

subsection \<open>Credit limit policy\<close>

definition INITIAL_LIMIT_BASE :: int where
  "INITIAL_LIMIT_BASE = 50000"

definition GROWTH_FACTOR_BP :: int where
  "GROWTH_FACTOR_BP = 110"

definition MAX_LIMIT :: int where
  "MAX_LIMIT = 10000 * 1000000"

definition calculateInitialLimit :: "world \<Rightarrow> real \<Rightarrow> int" where
  "calculateInitialLimit w repFactor =
     (let factor = \<lfloor>fl_mul w repFactor 100\<rfloor>
      in bigint_div (INITIAL_LIMIT_BASE * factor) 100)"

definition calculateGrowthLimit :: "int \<Rightarrow> int" where
  "calculateGrowthLimit currentLimit =
     (let grown = bigint_div (currentLimit * GROWTH_FACTOR_BP) 100
      in if grown > MAX_LIMIT then MAX_LIMIT else grown)"

subsection \<open>Handlers\<close>

datatype message =
    Text string
  | LedgerError error
  | NotEncodable
  | BadAmount
  | AutoOnboardingFailed "message option"

datatype data =
    ExistingAccount int int
  | OnboardedAccount address string int real
  | AccountBalances int int int

record CredexResponse =
  success :: bool
  message :: "message option"
  data :: "data option"

text \<open>The \<^verbatim>\<open>catch\<close> block of every handler.\<close>

definition failed :: "message \<Rightarrow> CredexResponse" where
  "failed m = \<lparr>success = False, message = Some m, data = None\<rparr>"

definition handleOnboard :: "world \<Rightarrow> nat \<Rightarrow> address \<Rightarrow> string \<Rightarrow> pool \<Rightarrow> CredexResponse \<times> pool" where
  "handleOnboard w k agentAddress agentId s =
     (case getAgentState (env_at w k) s agentAddress of
        Inl err \<Rightarrow> (failed (LedgerError err), s)
      | Inr existing \<Rightarrow>
          if active existing then
            (\<lparr>success = False, message = Some (Text ''Agent already onboarded''),
              data = Some (ExistingAccount (uint (debt existing)) (uint (creditLimit existing)))\<rparr>, s)
          else
            let repFactor = (case getRepFactorByAgentId w agentId of None \<Rightarrow> 1 | Some f \<Rightarrow> f);
                initialLimit = calculateInitialLimit w repFactor
            in (case encode_uint256 initialLimit of
                  None \<Rightarrow> (failed NotEncodable, s)
                | Some limit \<Rightarrow>
                    (case onboardAgent (env_at w (k + 1)) agentAddress limit s of
                       Inl err \<Rightarrow> (failed (LedgerError err), s)
                     | Inr s' \<Rightarrow>
                         (\<lparr>success = True, message = Some (Text ''Agent onboarded successfully''),
                           data = Some (OnboardedAccount agentAddress agentId initialLimit repFactor)\<rparr>,
                          s'))))"

text \<open>\<^verbatim>\<open>ensureActiveAgent\<close>: \<open>Inl\<close> is the error it throws.\<close>

definition ensureActiveAgent :: "world \<Rightarrow> nat \<Rightarrow> address \<Rightarrow> pool \<Rightarrow> (message + AgentAccount) \<times> pool" where
  "ensureActiveAgent w k agentAddress s =
     (case getAgentState (env_at w k) s agentAddress of
        Inl err \<Rightarrow> (Inl (LedgerError err), s)
      | Inr agent \<Rightarrow>
          if \<not> active agent then
            (case handleOnboard w (k + 1) agentAddress ''0'' s of
               (onboardRes, s1) \<Rightarrow>
                 if \<not> success onboardRes then (Inl (AutoOnboardingFailed (message onboardRes)), s1)
                 else (case getAgentState (env_at w (k + 3)) s1 agentAddress of
                         Inl err \<Rightarrow> (Inl (LedgerError err), s1)
                       | Inr agent' \<Rightarrow> (Inr agent', s1)))
          else (Inr agent, s))"

text \<open>The limit update of \<^verbatim>\<open>handleRepay\<close>, after the repayment went through.\<close>

definition growLimit :: "world \<Rightarrow> nat \<Rightarrow> address \<Rightarrow> AgentAccount \<Rightarrow> pool \<Rightarrow> message + pool" where
  "growLimit w k agentAddress agent s =
     (let newLimit = calculateGrowthLimit (uint (creditLimit agent)) in
      if newLimit > uint (creditLimit agent) then
        (case encode_uint256 newLimit of
           None \<Rightarrow> Inl NotEncodable
         | Some l \<Rightarrow>
             (case setCreditLimit (env_at w k) agentAddress l s of
                Inl err \<Rightarrow> Inl (LedgerError err)
              | Inr s' \<Rightarrow> Inr s'))
      else Inr s)"

definition handleRepay :: "world \<Rightarrow> address \<Rightarrow> string \<Rightarrow> pool \<Rightarrow> CredexResponse \<times> pool" where
  "handleRepay w agentAddress amount s =
     (case parseUnits w amount of
        None \<Rightarrow> (failed BadAmount, s)
      | Some amountWei \<Rightarrow>
          (case ensureActiveAgent w 0 agentAddress s of
             (Inl m, s1) \<Rightarrow> (failed m, s1)
           | (Inr agent, s1) \<Rightarrow>
               (case encode_uint256 amountWei of
                  None \<Rightarrow> (failed NotEncodable, s1)
                | Some amt \<Rightarrow>
                    (case repay (env_at w 4) agentAddress amt s1 of
                       Inl err \<Rightarrow> (failed (LedgerError err), s1)
                     | Inr s2 \<Rightarrow>
                         (case growLimit w 5 agentAddress agent s2 of
                            Inl m \<Rightarrow> (failed m, s2)
                          | Inr s3 \<Rightarrow>
                              (case getAgentState (env_at w 6) s3 agentAddress of
                                 Inl err \<Rightarrow> (failed (LedgerError err), s3)
                               | Inr updated \<Rightarrow>
                                   (\<lparr>success = True,
                                     message = Some (Text (''Repaid '' @ amount @ '' USDC'')),
                                     data = Some (AccountBalances (uint (debt updated))
                                              (uint (creditLimit updated))
                                              (uint (creditLimit updated) - uint (debt updated)))\<rparr>,
                                    s3)))))))"



section \<open>Vocabulary of the properties\<close>

text \<open>Sums over all addresses (a finite type), the number of whole accrual intervals
  between an account's watermark and the time of a call, and the simple interest they carry.\<close>

definition sumShares :: "pool \<Rightarrow> nat" where
  "sumShares s = (\<Sum>a\<in>UNIV. unat (lpShares s a))"

definition sumDebt :: "pool \<Rightarrow> nat" where
  "sumDebt s = (\<Sum>a\<in>UNIV. unat (debt (agents s a)))"

definition inactive_clean :: "pool \<Rightarrow> bool" where
  "inactive_clean s = (\<forall>a. \<not> active (agents s a) \<longrightarrow> debt (agents s a) = 0)"

definition books_balance :: "pool \<Rightarrow> bool" where
  "books_balance s \<longleftrightarrow>
     sumShares s = unat (totalShares s) \<and> sumDebt s = unat (globalTotalDebt s) \<and> inactive_clean s"

definition intervals_of :: "env \<Rightarrow> AgentAccount \<Rightarrow> nat" where
  "intervals_of e acc =
     (unat (block_timestamp e) - unat (lastAccrued acc)) div unat ACCRUAL_INTERVAL"

definition interest_of :: "env \<Rightarrow> AgentAccount \<Rightarrow> nat" where
  "interest_of e acc = unat (debt acc) * unat INTEREST_RATE_BP * intervals_of e acc div 10000"

definition debt_covers_principal :: "pool \<Rightarrow> bool" where
  "debt_covers_principal s = (\<forall>a. unat (principal (agents s a)) \<le> unat (debt (agents s a)))"

text \<open>\<^verbatim>\<open>type(uint256).max\<close>, that is \<open>2 ^ 256 - 1\<close>.\<close>

definition max_uint256 :: uint256 where
  "max_uint256 = 115792089237316195423570985008687907853269984665640564039457584007913129639935"

text \<open>The factor \<^verbatim>\<open>handleOnboard\<close> works with: the reader's answer, or \<open>1.0\<close> when the
  reader throws.\<close>

definition repFactor_used :: "world \<Rightarrow> string \<Rightarrow> real" where
  "repFactor_used w agentId = (case getRepFactorByAgentId w agentId of None \<Rightarrow> 1 | Some f \<Rightarrow> f)"

section \<open>Example runs\<close>

text \<open>The roles of the repository's tests: owner \<open>1\<close>, clearing agent \<open>2\<close>, liquidity
  provider \<open>3\<close>, borrower \<open>4\<close>.\<close>

definition deployer :: env where
  "deployer = \<lparr>msg_sender = 1, block_timestamp = 1, usdc_ok = True\<rparr>"

definition provider_at :: "uint256 \<Rightarrow> env" where
  "provider_at t = \<lparr>msg_sender = 3, block_timestamp = t, usdc_ok = True\<rparr>"

definition operator_at :: "uint256 \<Rightarrow> env" where
  "operator_at t = \<lparr>msg_sender = 2, block_timestamp = t, usdc_ok = True\<rparr>"

definition fresh_pool :: pool where
  "fresh_pool = constructor deployer 2"

text \<open>100 shares against 200 of assets: the whole deposit is lent out and has doubled
  after 1000 intervals.\<close>

definition doubled_pool :: pool where
  "doubled_pool = run [(provider_at 1, Deposit 100), (operator_at 1, OnboardAgent 4 100),
     (operator_at 1, Borrow 4 100), (operator_at 60001, Repay 4 0)] fresh_pool"

text \<open>A pool of 1000 USDC with a borrower onboarded at time 1 (\<open>idle_pool\<close>), who then
  borrows 50 USDC at once (\<open>lent_pool\<close>), and the same pool 90 seconds later, after one
  interval of interest has been folded in (\<open>accrued_pool\<close>).\<close>

definition idle_pool :: pool where
  "idle_pool = run [(provider_at 1, Deposit 1000000000),
     (operator_at 1, OnboardAgent 4 100000000)] fresh_pool"

definition lent_pool :: pool where
  "lent_pool = run [(operator_at 1, Borrow 4 50000000)] idle_pool"

definition accrued_pool :: pool where
  "accrued_pool = run [(operator_at 91, Repay 4 0)] lent_pool"

text \<open>A pool whose liquidity is partly lent out, and one with very large balances.\<close>

definition locked_pool :: pool where
  "locked_pool = run [(provider_at 1, Deposit 100), (operator_at 1, OnboardAgent 4 100),
     (operator_at 1, Borrow 4 60)] fresh_pool"

definition huge_pool :: pool where
  "huge_pool = run [(provider_at 1, Deposit (2 ^ 200)), (operator_at 1, OnboardAgent 4 (2 ^ 200)),
     (operator_at 1, Borrow 4 (2 ^ 200))] fresh_pool"

text \<open>A world for the handlers: the clearing agent's wallet is the signer, every
  interaction happens at time 91, the token answers, agent id 7 has two feedback events
  with scores 12 and 13, every other id none. The conversions are given on the strings
  the examples use, where they agree with the runtime (\<^verbatim>\<open>BigInt("7")\<close> is \<open>7\<close>,
  \<^verbatim>\<open>parseUnits("0.07", 6)\<close> is \<open>70000\<close>). The double operations are the exact ones: on the
  operands met here (25 / 2, 12.5 / 100, 0.125 * 100, 1 * 100) the exact result is a double,
  so IEEE-754 returns it.\<close>

definition example_world :: world where
  "example_world = \<lparr>signer = 2, clock = (\<lambda>_. 91), token_ok = (\<lambda>_. True),
     feedback = (\<lambda>i. if i = 7 then Some [12, 13] else Some []),
     BigInt_of = (\<lambda>x. if x = ''0'' then Some 0 else if x = ''7'' then Some 7 else None),
     parseUnits = (\<lambda>x. if x = ''0.07'' then Some 70000 else None),
     fl_mul = (*), fl_div = (/)\<rparr>"

section \<open>Checked arithmetic and sequencing\<close>

lemma and_then_Inl [simp]: "and_then (Inl x) f = Inl x"
  by (simp add: and_then_def)

lemma and_then_Inr [simp]: "and_then (Inr v) f = f v"
  by (simp add: and_then_def)

lemma and_then_eq_Inr: "and_then m f = Inr r \<longleftrightarrow> (\<exists>v. m = Inr v \<and> f v = Inr r)"
  by (cases m) simp_all

lemma checked_add_eq_Inr:
  "checked_add a b = Inr c \<longleftrightarrow> unat a + unat b < 2 ^ 256 \<and> c = a + b \<and> unat c = unat a + unat b"
  using unat_add_lem [of a b] by (auto simp: checked_add_def)

lemma checked_sub_eq_Inr:
  "checked_sub a b = Inr c \<longleftrightarrow> unat b \<le> unat a \<and> c = a - b \<and> unat c = unat a - unat b"
  by (auto simp: checked_sub_def unat_sub word_le_nat_alt)

lemma checked_mul_eq_Inr:
  "checked_mul a b = Inr c \<longleftrightarrow> unat a * unat b < 2 ^ 256 \<and> c = a * b \<and> unat c = unat a * unat b"
  using unat_mult_lem [of a b] by (auto simp: checked_mul_def)

lemma checked_div_eq_Inr:
  "checked_div a b = Inr c \<longleftrightarrow> b \<noteq> 0 \<and> c = a div b \<and> unat c = unat a div unat b"
  by (auto simp: checked_div_def unat_div)

lemma totalAssets_eq_Inr:
  "totalAssets s = Inr ta \<longleftrightarrow>
     unat (totalLiquidity s) + unat (globalTotalDebt s) < 2 ^ 256 \<and>
     ta = totalLiquidity s + globalTotalDebt s \<and>
     unat ta = unat (totalLiquidity s) + unat (globalTotalDebt s)"
  by (simp add: totalAssets_def totalDebt_def checked_add_eq_Inr)

lemma checked_addD: "checked_add a b = Inr c \<Longrightarrow> unat c = unat a + unat b"
  by (auto simp: checked_add_eq_Inr)

lemma checked_subD: "checked_sub a b = Inr c \<Longrightarrow> unat b \<le> unat a \<and> unat c = unat a - unat b"
  by (auto simp: checked_sub_eq_Inr)

lemma checked_mulD: "checked_mul a b = Inr c \<Longrightarrow> unat c = unat a * unat b"
  by (auto simp: checked_mul_eq_Inr)

lemma unat_ACCRUAL_INTERVAL [simp]: "unat ACCRUAL_INTERVAL = 60"
  by (simp add: ACCRUAL_INTERVAL_def)

lemma unat_INTEREST_RATE_BP [simp]: "unat INTEREST_RATE_BP = 10"
  by (simp add: INTEREST_RATE_BP_def)

lemmas contract_defs = transact_def deposit_def withdraw_def onboardAgent_def setCreditLimit_def
  borrow_def repay_def accrueInterest_def freeze_def unfreeze_def onlyAgent_def totalAssets_def
  totalDebt_def checked_add_def checked_sub_def checked_mul_def checked_div_def and_then_def
  zero_account_def INTEREST_RATE_BP_def ACCRUAL_INTERVAL_def Let_def constructor_def

section \<open>What a successful call does\<close>

lemma deposit_zero: "deposit e 0 s = Inl (Revert ''Zero amount'')"
  by (simp add: deposit_def)

lemma deposit_Inr:
  assumes "deposit e assets s = Inr s'"
  shows "unat (lpShares s' (msg_sender e)) = unat (lpShares s (msg_sender e)) + (if totalShares s = 0 then unat assets
         else unat assets * unat (totalShares s)
              div (unat (totalLiquidity s) + unat (globalTotalDebt s)))"
    and "unat (totalShares s') = unat (totalShares s) + (if totalShares s = 0 then unat assets
         else unat assets * unat (totalShares s)
              div (unat (totalLiquidity s) + unat (globalTotalDebt s)))"
    and "unat (totalLiquidity s') = unat (totalLiquidity s) + unat assets"
    and "\<forall>a. a \<noteq> msg_sender e \<longrightarrow> lpShares s' a = lpShares s a"
    and "agents s' = agents s" and "globalTotalDebt s' = globalTotalDebt s"
  using assms
  by (auto simp: deposit_def Let_def and_then_eq_Inr checked_add_eq_Inr
      checked_mul_eq_Inr checked_div_eq_Inr totalAssets_eq_Inr split: if_splits)

lemma withdraw_Inr:
  assumes "withdraw e shares s = Inr s'"
  shows "unat (lpShares s' (msg_sender e)) = unat (lpShares s (msg_sender e)) - unat shares"
    and "unat (totalShares s') = unat (totalShares s) - unat shares"
    and "unat (totalLiquidity s') = unat (totalLiquidity s)
           - unat shares * (unat (totalLiquidity s) + unat (globalTotalDebt s)) div unat (totalShares s)"
    and "unat shares \<le> unat (lpShares s (msg_sender e))"
    and "unat shares \<le> unat (totalShares s)"
    and "unat shares * (unat (totalLiquidity s) + unat (globalTotalDebt s)) div unat (totalShares s)
           \<le> unat (totalLiquidity s)"
    and "\<forall>a. a \<noteq> msg_sender e \<longrightarrow> lpShares s' a = lpShares s a"
    and "agents s' = agents s" and "globalTotalDebt s' = globalTotalDebt s"
  using assms
  by (auto simp: withdraw_def Let_def and_then_eq_Inr checked_sub_eq_Inr
      checked_mul_eq_Inr checked_div_eq_Inr totalAssets_eq_Inr word_le_nat_alt split: if_splits)

lemma withdraw_zero: "withdraw e 0 s = Inl (Revert ''Zero shares'')"
  by (simp add: withdraw_def)

lemma withdraw_short:
  "shares \<noteq> 0 \<Longrightarrow> lpShares s (msg_sender e) < shares \<Longrightarrow>
   withdraw e shares s = Inl (Revert ''Insufficient shares'')"
  by (simp add: withdraw_def word_neq_0_conv not_le)

lemma withdraw_locked:
  assumes "shares \<noteq> 0" "shares \<le> lpShares s (msg_sender e)" "totalShares s \<noteq> 0"
    and "unat shares * (unat (totalLiquidity s) + unat (globalTotalDebt s)) < 2 ^ 256"
    and "unat (totalLiquidity s)
           < unat shares * (unat (totalLiquidity s) + unat (globalTotalDebt s)) div unat (totalShares s)"
  shows "withdraw e shares s = Inl (Revert ''Insufficient pool liquidity'')"
proof -
  have pos: "0 < unat shares" using assms(1) by (simp add: unat_gt_0)
  have fits: "unat (totalLiquidity s) + unat (globalTotalDebt s) < 2 ^ 256"
  proof -
    have "unat (totalLiquidity s) + unat (globalTotalDebt s)
            \<le> unat shares * (unat (totalLiquidity s) + unat (globalTotalDebt s))"
      using pos by (cases "unat shares") simp_all
    from this assms(4) show ?thesis by (rule le_less_trans)
  qed
  have ta: "totalAssets s = Inr (totalLiquidity s + globalTotalDebt s)"
    and uta: "unat (totalLiquidity s + globalTotalDebt s)
                = unat (totalLiquidity s) + unat (globalTotalDebt s)"
    using fits by (simp_all add: totalAssets_eq_Inr unat_add_lem [THEN iffD1])
  have mul: "checked_mul shares (totalLiquidity s + globalTotalDebt s)
               = Inr (shares * (totalLiquidity s + globalTotalDebt s))"
    and umul: "unat (shares * (totalLiquidity s + globalTotalDebt s))
               = unat shares * (unat (totalLiquidity s) + unat (globalTotalDebt s))"
    using assms(4) uta by (simp_all add: checked_mul_eq_Inr unat_mult_lem [THEN iffD1])
  have lt: "totalLiquidity s < shares * (totalLiquidity s + globalTotalDebt s) div totalShares s"
    using assms(5) by (simp add: word_less_nat_alt unat_div umul)
  show ?thesis
    using assms(1,2,3) lt
    by (simp add: withdraw_def Let_def ta mul checked_div_def word_neq_0_conv not_le)
qed

lemma withdraw_overflow:
  assumes "shares \<noteq> 0" "shares \<le> lpShares s (msg_sender e)"
    and "2 ^ 256 \<le> unat shares * (unat (totalLiquidity s) + unat (globalTotalDebt s))"
  shows "withdraw e shares s = Inl ArithmeticPanic"
proof (cases "unat (totalLiquidity s) + unat (globalTotalDebt s) < 2 ^ 256")
  case True
  then have ta: "totalAssets s = Inr (totalLiquidity s + globalTotalDebt s)"
    and uta: "unat (totalLiquidity s + globalTotalDebt s)
                = unat (totalLiquidity s) + unat (globalTotalDebt s)"
    by (simp_all add: totalAssets_eq_Inr unat_add_lem [THEN iffD1])
  have "checked_mul shares (totalLiquidity s + globalTotalDebt s) = Inl ArithmeticPanic"
    using assms(3) uta by (simp add: checked_mul_def)
  then show ?thesis
    using assms(1,2) by (simp add: withdraw_def Let_def ta word_neq_0_conv)
next
  case False
  then have "totalAssets s = Inl ArithmeticPanic"
    by (simp add: totalAssets_def totalDebt_def checked_add_def)
  then show ?thesis
    using assms(1,2) by (simp add: withdraw_def word_neq_0_conv)
qed

lemma accrue_skip:
  "lastAccrued (agents s a) = 0 \<or> debt (agents s a) = 0 \<Longrightarrow> accrueInterest e a s = Inr s"
  by (auto simp: accrueInterest_def)

lemma accrue_cases:
  assumes ok: "accrueInterest e a s = Inr s'"
  obtains
    (skip) "lastAccrued (agents s a) = 0 \<or> debt (agents s a) = 0" "s' = s"
  | (idle) "lastAccrued (agents s a) \<noteq> 0" "debt (agents s a) \<noteq> 0"
      "unat (lastAccrued (agents s a)) \<le> unat (block_timestamp e)"
      "intervals_of e (agents s a) = 0" "s' = s"
  | (accrued) d la g where
      "lastAccrued (agents s a) \<noteq> 0" "debt (agents s a) \<noteq> 0"
      "unat (lastAccrued (agents s a)) \<le> unat (block_timestamp e)"
      "0 < intervals_of e (agents s a)"
      "unat d = unat (debt (agents s a)) + interest_of e (agents s a)"
      "unat la = unat (lastAccrued (agents s a)) + intervals_of e (agents s a) * 60"
      "unat g = unat (globalTotalDebt s) + interest_of e (agents s a)"
      "s' = s\<lparr>agents := (agents s)(a := (agents s a)\<lparr>debt := d, lastAccrued := la\<rparr>),
              globalTotalDebt := g\<rparr>"
proof (cases "lastAccrued (agents s a) = 0 \<or> debt (agents s a) = 0")
  case True
  with ok have "s' = s" by (simp add: accrue_skip)
  with True show ?thesis by (rule skip)
next
  case False
  then have live: "lastAccrued (agents s a) \<noteq> 0" "debt (agents s a) \<noteq> 0" by simp_all
  let ?acc = "agents s a"
  let ?n = "intervals_of e ?acc"
  from ok live obtain elapsed where
    el: "checked_sub (block_timestamp e) (lastAccrued ?acc) = Inr elapsed"
    and rest: "(if elapsed div ACCRUAL_INTERVAL > 0 then
          and_then (checked_mul (debt ?acc) INTEREST_RATE_BP) (\<lambda>p.
          and_then (checked_mul p (elapsed div ACCRUAL_INTERVAL)) (\<lambda>q.
          and_then (checked_add (debt ?acc) (q div 10000)) (\<lambda>d.
          and_then (checked_add (globalTotalDebt s) (q div 10000)) (\<lambda>g.
          and_then (checked_mul (elapsed div ACCRUAL_INTERVAL) ACCRUAL_INTERVAL) (\<lambda>m.
          and_then (checked_add (lastAccrued ?acc) m) (\<lambda>la.
          Inr (s\<lparr>agents := (agents s)(a := ?acc\<lparr>debt := d, lastAccrued := la\<rparr>),
                 globalTotalDebt := g\<rparr>)))))))
        else Inr s) = Inr s'"
    unfolding accrueInterest_def Let_def by (simp add: and_then_eq_Inr) blast
  from el have le: "unat (lastAccrued ?acc) \<le> unat (block_timestamp e)"
    and uel: "unat elapsed = unat (block_timestamp e) - unat (lastAccrued ?acc)"
    using checked_subD [OF el] by simp_all
  have un: "unat (elapsed div ACCRUAL_INTERVAL) = ?n"
    by (simp add: unat_div uel intervals_of_def)
  show ?thesis
  proof (cases "elapsed div ACCRUAL_INTERVAL > 0")
    case False
    then have "?n = 0" using un by (simp add: word_less_nat_alt)
    moreover from rest False have "s' = s" by simp
    ultimately show ?thesis using live le by (intro idle)
  next
    case True
    then have npos: "0 < ?n" using un by (simp add: word_less_nat_alt)
    from rest True obtain p q d g m la where
      p: "checked_mul (debt ?acc) INTEREST_RATE_BP = Inr p"
      and q: "checked_mul p (elapsed div ACCRUAL_INTERVAL) = Inr q"
      and d: "checked_add (debt ?acc) (q div 10000) = Inr d"
      and g: "checked_add (globalTotalDebt s) (q div 10000) = Inr g"
      and m: "checked_mul (elapsed div ACCRUAL_INTERVAL) ACCRUAL_INTERVAL = Inr m"
      and la: "checked_add (lastAccrued ?acc) m = Inr la"
      and s': "s' = s\<lparr>agents := (agents s)(a := ?acc\<lparr>debt := d, lastAccrued := la\<rparr>),
              globalTotalDebt := g\<rparr>"
      by (simp add: and_then_eq_Inr) blast
    from checked_mulD [OF p] have up: "unat p = unat (debt ?acc) * 10" by simp
    from checked_mulD [OF q] have uq: "unat q = unat (debt ?acc) * 10 * ?n" by (simp add: up un)
    have ui: "unat (q div 10000) = interest_of e ?acc"
      by (simp add: unat_div uq interest_of_def)
    from checked_addD [OF d] have ud: "unat d = unat (debt ?acc) + interest_of e ?acc"
      by (simp add: ui)
    from checked_addD [OF g] have ug: "unat g = unat (globalTotalDebt s) + interest_of e ?acc"
      by (simp add: ui)
    from checked_mulD [OF m] have um: "unat m = ?n * 60" by (simp add: un)
    from checked_addD [OF la] have ula: "unat la = unat (lastAccrued ?acc) + ?n * 60"
      by (simp add: um)
    show ?thesis using live le npos ud ula ug s' by (rule accrued)
  qed
qed

lemma accrue_frame:
  assumes ok: "accrueInterest e a s = Inr s'"
  shows "principal (agents s' a) = principal (agents s a)"
    and "creditLimit (agents s' a) = creditLimit (agents s a)"
    and "lastRepayment (agents s' a) = lastRepayment (agents s a)"
    and "frozen (agents s' a) = frozen (agents s a)"
    and "active (agents s' a) = active (agents s a)"
    and "agents s' = (agents s)(a := agents s' a)"
    and "lpShares s' = lpShares s" and "totalShares s' = totalShares s"
    and "totalLiquidity s' = totalLiquidity s"
    and "credexAgent s' = credexAgent s" and "owner s' = owner s"
    and "unat (debt (agents s a)) \<le> unat (debt (agents s' a))"
  using ok by (cases rule: accrue_cases; simp)+

lemma borrow_cases:
  assumes ok: "borrow e a amount s = Inr s'"
  obtains s1 p d tl g where
    "msg_sender e = credexAgent s" "active (agents s a)" "\<not> frozen (agents s a)"
    "accrueInterest e a s = Inr s1" "usdc_ok e"
    "unat (principal (agents s1 a)) + unat amount \<le> unat (creditLimit (agents s1 a))"
    "unat amount \<le> unat (totalLiquidity s1)"
    "unat p = unat (principal (agents s1 a)) + unat amount"
    "unat d = unat (debt (agents s1 a)) + unat amount"
    "unat tl = unat (totalLiquidity s1) - unat amount"
    "unat g = unat (globalTotalDebt s1) + unat amount"
    "s' = s1\<lparr>agents := (agents s1)(a := (agents s1 a)\<lparr>principal := p, debt := d\<rparr>),
              totalLiquidity := tl, globalTotalDebt := g\<rparr>"
proof -
  note defs = borrow_def onlyAgent_def Let_def
  have auth: "msg_sender e = credexAgent s"
    using ok by (simp add: defs split: if_splits)
  have act: "active (agents s a)"
    using ok auth by (simp add: defs split: if_splits)
  have nfz: "\<not> frozen (agents s a)"
    using ok auth act by (simp add: defs split: if_splits)
  obtain s1 where s1: "accrueInterest e a s = Inr s1"
    using ok auth act nfz by (cases "accrueInterest e a s") (simp_all add: defs)
  obtain w where w: "checked_add (principal (agents s1 a)) amount = Inr w"
    using ok auth act nfz s1
    by (cases "checked_add (principal (agents s1 a)) amount") (simp_all add: defs)
  have lim: "w \<le> creditLimit (agents s1 a)"
    using ok auth act nfz s1 w by (simp add: defs split: if_splits)
  have liq: "amount \<le> totalLiquidity s1"
    using ok auth act nfz s1 w lim by (simp add: defs split: if_splits)
  obtain d where d: "checked_add (debt (agents s1 a)) amount = Inr d"
    using ok auth act nfz s1 w lim liq
    by (cases "checked_add (debt (agents s1 a)) amount") (simp_all add: defs)
  obtain tl where tl: "checked_sub (totalLiquidity s1) amount = Inr tl"
    using ok auth act nfz s1 w lim liq d
    by (cases "checked_sub (totalLiquidity s1) amount") (simp_all add: defs)
  obtain g where g: "checked_add (globalTotalDebt s1) amount = Inr g"
    using ok auth act nfz s1 w lim liq d tl
    by (cases "checked_add (globalTotalDebt s1) amount") (simp_all add: defs)
  have tok: "usdc_ok e"
    using ok auth act nfz s1 w lim liq d tl g by (simp add: defs split: if_splits)
  have s': "s' = s1\<lparr>agents := (agents s1)(a := (agents s1 a)\<lparr>principal := w, debt := d\<rparr>),
              totalLiquidity := tl, globalTotalDebt := g\<rparr>"
    using ok auth act nfz s1 w lim liq d tl g tok by (simp add: defs)
  have uw: "unat w = unat (principal (agents s1 a)) + unat amount"
    using checked_addD [OF w] .
  show thesis
  proof (rule that [OF auth act nfz s1 tok _ _ uw checked_addD [OF d] _ checked_addD [OF g] s'])
    show "unat (principal (agents s1 a)) + unat amount \<le> unat (creditLimit (agents s1 a))"
      using lim uw by (simp add: word_le_nat_alt)
    show "unat amount \<le> unat (totalLiquidity s1)"
      using liq by (simp add: word_le_nat_alt)
    show "unat tl = unat (totalLiquidity s1) - unat amount"
      using checked_subD [OF tl] by simp
  qed
qed

lemma repay_cases:
  assumes ok: "repay e a amount s = Inr s'"
  obtains s1 acc' g tl eff owed where
    "msg_sender e = credexAgent s" "active (agents s a)"
    "accrueInterest e a s = Inr s1" "usdc_ok e"
    "eff = min (unat amount) (unat (debt (agents s1 a)))"
    "owed = unat (debt (agents s1 a)) - unat (principal (agents s1 a))"
    "unat (principal (agents s1 a)) \<le> unat (debt (agents s1 a))"
    "unat (debt acc') = unat (debt (agents s1 a)) - eff"
    "eff \<le> owed \<longrightarrow> principal acc' = principal (agents s1 a)"
    "owed < eff \<longrightarrow> unat (principal acc') = unat (principal (agents s1 a)) - (eff - owed)"
    "creditLimit acc' = creditLimit (agents s1 a)" "lastAccrued acc' = lastAccrued (agents s1 a)"
    "frozen acc' = frozen (agents s1 a)" "active acc' = active (agents s1 a)"
    "lastRepayment acc' = block_timestamp e"
    "eff \<le> unat (globalTotalDebt s1)"
    "unat g = unat (globalTotalDebt s1) - eff"
    "unat tl = unat (totalLiquidity s1) + eff"
    "s' = s1\<lparr>agents := (agents s1)(a := acc'), globalTotalDebt := g, totalLiquidity := tl\<rparr>"
proof -
  note defs = repay_def onlyAgent_def Let_def
  have auth: "msg_sender e = credexAgent s"
    using ok by (simp add: defs split: if_splits)
  have act: "active (agents s a)"
    using ok auth by (simp add: defs split: if_splits)
  obtain s1 where s1: "accrueInterest e a s = Inr s1"
    using ok auth act by (cases "accrueInterest e a s") (simp_all add: defs)
  let ?acc = "agents s1 a"
  define eff where "eff = (if amount > debt ?acc then debt ?acc else amount)"
  have ueff: "unat eff = min (unat amount) (unat (debt ?acc))"
    by (auto simp: eff_def word_less_nat_alt)
  have tok: "usdc_ok e"
    using ok auth act s1 by (simp add: defs split: if_splits)
  obtain owed where owed: "checked_sub (debt ?acc) (principal ?acc) = Inr owed"
    using ok auth act s1 tok
    by (cases "checked_sub (debt ?acc) (principal ?acc)") (simp_all add: defs)
  have uowed: "unat owed = unat (debt ?acc) - unat (principal ?acc)"
    and ple: "unat (principal ?acc) \<le> unat (debt ?acc)"
    using checked_subD [OF owed] by simp_all
  obtain d where d: "checked_sub (debt ?acc) eff = Inr d"
    using ueff by (simp add: checked_sub_def)
  have ud: "unat d = unat (debt ?acc) - unat eff" using checked_subD [OF d] by simp
  show thesis
  proof (cases "eff \<le> owed")
    case True
    let ?acc1 = "?acc\<lparr>debt := d\<rparr>"
    obtain g where g: "checked_sub (globalTotalDebt s1) eff = Inr g"
      using ok auth act s1 tok owed d True unfolding eff_def
      by (cases "checked_sub (globalTotalDebt s1) (if amount > debt ?acc then debt ?acc else amount)")
        (simp_all add: defs split: if_splits)
    obtain tl where tl: "checked_add (totalLiquidity s1) eff = Inr tl"
      using ok auth act s1 tok owed d True g unfolding eff_def
      by (cases "checked_add (totalLiquidity s1) (if amount > debt ?acc then debt ?acc else amount)")
        (simp_all add: defs split: if_splits)
    have s': "s' = s1\<lparr>agents := (agents s1)(a := ?acc1\<lparr>lastRepayment := block_timestamp e\<rparr>),
                globalTotalDebt := g, totalLiquidity := tl\<rparr>"
      using ok auth act s1 tok owed d True g tl unfolding eff_def
      by (simp add: defs split: if_splits)
    have le: "unat eff \<le> unat owed" using True by (simp add: word_le_nat_alt)
    let ?acc' = "?acc1\<lparr>lastRepayment := block_timestamp e\<rparr>"
    have f8: "unat (debt ?acc') = unat (debt ?acc) - unat eff" using ud by simp
    have f9: "unat eff \<le> unat owed \<longrightarrow> principal ?acc' = principal ?acc" by simp
    have f10: "unat owed < unat eff \<longrightarrow>
        unat (principal ?acc') = unat (principal ?acc) - (unat eff - unat owed)"
      using le by simp
    have f11: "creditLimit ?acc' = creditLimit ?acc" "lastAccrued ?acc' = lastAccrued ?acc"
      "frozen ?acc' = frozen ?acc" "active ?acc' = active ?acc"
      "lastRepayment ?acc' = block_timestamp e" by simp_all
    have f16: "unat eff \<le> unat (globalTotalDebt s1)"
      and f17: "unat g = unat (globalTotalDebt s1) - unat eff"
      using checked_subD [OF g] by simp_all
    show thesis
      by (rule that [OF auth act s1 tok ueff uowed ple f8 f9 f10 f11 f16 f17 checked_addD [OF tl] s'])
  next
    case False
    then have gt: "unat owed < unat eff" by (simp add: word_le_nat_alt)
    obtain pr where pr: "checked_sub eff owed = Inr pr"
      using gt by (simp add: checked_sub_def)
    have upr: "unat pr = unat eff - unat owed" using checked_subD [OF pr] by simp
    obtain p where p: "checked_sub (principal ?acc) pr = Inr p"
      using ok auth act s1 tok owed d False pr unfolding eff_def
      by (cases "checked_sub (principal ?acc) pr") (simp_all add: defs split: if_splits)
    let ?acc1 = "?acc\<lparr>debt := d, principal := p\<rparr>"
    obtain g where g: "checked_sub (globalTotalDebt s1) eff = Inr g"
      using ok auth act s1 tok owed d False pr p unfolding eff_def
      by (cases "checked_sub (globalTotalDebt s1) (if amount > debt ?acc then debt ?acc else amount)")
        (simp_all add: defs split: if_splits)
    obtain tl where tl: "checked_add (totalLiquidity s1) eff = Inr tl"
      using ok auth act s1 tok owed d False pr p g unfolding eff_def
      by (cases "checked_add (totalLiquidity s1) (if amount > debt ?acc then debt ?acc else amount)")
        (simp_all add: defs split: if_splits)
    have s': "s' = s1\<lparr>agents := (agents s1)(a := ?acc1\<lparr>lastRepayment := block_timestamp e\<rparr>),
                globalTotalDebt := g, totalLiquidity := tl\<rparr>"
      using ok auth act s1 tok owed d False pr p g tl unfolding eff_def
      by (simp add: defs split: if_splits)
    have up: "unat p = unat (principal ?acc) - (unat eff - unat owed)"
      using checked_subD [OF p] upr by simp
    let ?acc' = "?acc1\<lparr>lastRepayment := block_timestamp e\<rparr>"
    have f8: "unat (debt ?acc') = unat (debt ?acc) - unat eff" using ud by simp
    have f9: "unat eff \<le> unat owed \<longrightarrow> principal ?acc' = principal ?acc"
      using gt by simp
    have f10: "unat owed < unat eff \<longrightarrow>
        unat (principal ?acc') = unat (principal ?acc) - (unat eff - unat owed)"
      using up by simp
    have f11: "creditLimit ?acc' = creditLimit ?acc" "lastAccrued ?acc' = lastAccrued ?acc"
      "frozen ?acc' = frozen ?acc" "active ?acc' = active ?acc"
      "lastRepayment ?acc' = block_timestamp e" by simp_all
    have f16: "unat eff \<le> unat (globalTotalDebt s1)"
      and f17: "unat g = unat (globalTotalDebt s1) - unat eff"
      using checked_subD [OF g] by simp_all
    show thesis
      by (rule that [OF auth act s1 tok ueff uowed ple f8 f9 f10 f11 f16 f17 checked_addD [OF tl] s'])
  qed
qed

lemma accrue_Inl: "accrueInterest e a s = Inl err \<Longrightarrow> err = ArithmeticPanic"
  by (auto simp: accrueInterest_def and_then_def checked_add_def checked_sub_def checked_mul_def
      Let_def split: if_splits sum.splits)

lemma repay_capped:
  assumes "accrueInterest e a s = Inr s1" "debt (agents s1 a) \<le> amount"
  shows "repay e a amount s = repay e a (debt (agents s1 a)) s"
proof (cases "amount = debt (agents s1 a)")
  case True
  then show ?thesis by simp
next
  case False
  with assms(2) have lt: "debt (agents s1 a) < amount" by simp
  have 1: "(if amount > debt (agents s1 a) then debt (agents s1 a) else amount) = debt (agents s1 a)"
    using lt by simp
  have 2: "(if debt (agents s1 a) > debt (agents s1 a) then debt (agents s1 a) else debt (agents s1 a))
     = debt (agents s1 a)"
    by simp
  show ?thesis
    unfolding repay_def onlyAgent_def Let_def assms(1) and_then_Inr 1 2 ..
qed

lemma accrue_mod:
  assumes "unat la \<le> unat now"
  shows "unat la + (unat now - unat la) div 60 * 60 \<le> unat now"
    and "unat now - (unat la + (unat now - unat la) div 60 * 60) = (unat now - unat la) mod 60"
proof -
  have "(unat now - unat la) div 60 * 60 + (unat now - unat la) mod 60 = unat now - unat la"
    by simp
  then show "unat la + (unat now - unat la) div 60 * 60 \<le> unat now"
    and "unat now - (unat la + (unat now - unat la) div 60 * 60) = (unat now - unat la) mod 60"
    using assms by linarith+
qed

section \<open>When a call goes through\<close>

lemma checked_add_Inr_iff: "(\<exists>c. checked_add a b = Inr c) \<longleftrightarrow> unat a + unat b < 2 ^ 256"
  by (simp add: checked_add_def)

lemma checked_sub_Inr_iff: "(\<exists>c. checked_sub a b = Inr c) \<longleftrightarrow> unat b \<le> unat a"
  by (simp add: checked_sub_def)

lemma deposit_succeeds_iff:
  "(\<exists>s'. deposit e amount s = Inr s') \<longleftrightarrow>
     amount \<noteq> 0 \<and> usdc_ok e \<and>
     unat (totalLiquidity s) + unat (globalTotalDebt s) < 2 ^ 256 \<and>
     (totalShares s \<noteq> 0 \<longrightarrow>
        unat amount * unat (totalShares s) < 2 ^ 256 \<and>
        unat (totalLiquidity s) + unat (globalTotalDebt s) \<noteq> 0) \<and>
     unat (lpShares s (msg_sender e))
       + (if totalShares s = 0 then unat amount
          else unat amount * unat (totalShares s)
               div (unat (totalLiquidity s) + unat (globalTotalDebt s))) < 2 ^ 256 \<and>
     unat (totalShares s)
       + (if totalShares s = 0 then unat amount
          else unat amount * unat (totalShares s)
               div (unat (totalLiquidity s) + unat (globalTotalDebt s))) < 2 ^ 256 \<and>
     unat (totalLiquidity s) + unat amount < 2 ^ 256"
proof (cases "amount \<noteq> 0 \<and> usdc_ok e \<and>
     unat (totalLiquidity s) + unat (globalTotalDebt s) < 2 ^ 256")
  case False
  then show ?thesis
    by (auto simp: deposit_def totalAssets_def totalDebt_def checked_add_def Let_def
        word_neq_0_conv and_then_def split: sum.splits)
next
  case pre: True
  then have ta: "totalAssets s = Inr (totalLiquidity s + globalTotalDebt s)"
    and uta: "unat (totalLiquidity s + globalTotalDebt s)
                = unat (totalLiquidity s) + unat (globalTotalDebt s)"
    by (simp_all add: totalAssets_eq_Inr unat_add_lem [THEN iffD1])
  have pos: "0 < amount" using pre by (simp add: word_neq_0_conv)
  show ?thesis
  proof (cases "totalShares s = 0")
    case True
    then show ?thesis
      using pre pos
      by (simp add: deposit_def ta Let_def and_then_def checked_add_def split: sum.splits)
  next
    case ts: False
    show ?thesis
    proof (cases "unat amount * unat (totalShares s) < 2 ^ 256 \<and>
        unat (totalLiquidity s) + unat (globalTotalDebt s) \<noteq> 0")
      case False
      then have "and_then (checked_mul amount (totalShares s))
                   (\<lambda>p. checked_div p (totalLiquidity s + globalTotalDebt s)) = Inl ArithmeticPanic
               \<or> and_then (checked_mul amount (totalShares s))
                   (\<lambda>p. checked_div p (totalLiquidity s + globalTotalDebt s)) = Inl DivisionByZero"
        using uta by (auto simp: checked_mul_def checked_div_def unat_eq_zero [symmetric])
      then show ?thesis
        using False pre pos ts by (auto simp: deposit_def ta Let_def)
    next
      case True
      then have mul: "checked_mul amount (totalShares s) = Inr (amount * totalShares s)"
        and umul: "unat (amount * totalShares s) = unat amount * unat (totalShares s)"
        by (simp_all add: checked_mul_def unat_mult_lem [THEN iffD1])
      have nz: "totalLiquidity s + globalTotalDebt s \<noteq> 0"
        using True uta by (simp add: unat_eq_zero [symmetric])
      have ush: "unat (amount * totalShares s div (totalLiquidity s + globalTotalDebt s))
          = unat amount * unat (totalShares s)
              div (unat (totalLiquidity s) + unat (globalTotalDebt s))"
        by (simp add: unat_div umul uta)
      show ?thesis
        using pre pos ts True nz
        by (simp add: deposit_def ta Let_def mul checked_div_def and_then_def checked_add_def ush
            split: sum.splits)
    qed
  qed
qed

lemma repay_succeeds_iff:
  "(\<exists>s'. repay e a amount s = Inr s') \<longleftrightarrow>
     msg_sender e = credexAgent s \<and> active (agents s a) \<and> usdc_ok e \<and>
     (\<exists>s1. accrueInterest e a s = Inr s1 \<and>
        unat (principal (agents s1 a)) \<le> unat (debt (agents s1 a)) \<and>
        min (unat amount) (unat (debt (agents s1 a))) \<le> unat (globalTotalDebt s1) \<and>
        unat (totalLiquidity s1) + min (unat amount) (unat (debt (agents s1 a))) < 2 ^ 256)"
proof
  assume "\<exists>s'. repay e a amount s = Inr s'"
  then obtain s' where ok: "repay e a amount s = Inr s'" ..
  from ok show "msg_sender e = credexAgent s \<and> active (agents s a) \<and> usdc_ok e \<and>
     (\<exists>s1. accrueInterest e a s = Inr s1 \<and>
        unat (principal (agents s1 a)) \<le> unat (debt (agents s1 a)) \<and>
        min (unat amount) (unat (debt (agents s1 a))) \<le> unat (globalTotalDebt s1) \<and>
        unat (totalLiquidity s1) + min (unat amount) (unat (debt (agents s1 a))) < 2 ^ 256)"
  proof (cases rule: repay_cases)
    case (1 s1 acc' g tl eff owed)
    have "unat tl < 2 ^ 256" using unsigned_less [of tl, where ?'a = nat] by simp
    then have "unat (totalLiquidity s1) + eff < 2 ^ 256"
      using 1(18) by simp
    then show ?thesis using 1(1,2,3,4,5,7,16) by auto
  qed
next
  assume h: "msg_sender e = credexAgent s \<and> active (agents s a) \<and> usdc_ok e \<and>
     (\<exists>s1. accrueInterest e a s = Inr s1 \<and>
        unat (principal (agents s1 a)) \<le> unat (debt (agents s1 a)) \<and>
        min (unat amount) (unat (debt (agents s1 a))) \<le> unat (globalTotalDebt s1) \<and>
        unat (totalLiquidity s1) + min (unat amount) (unat (debt (agents s1 a))) < 2 ^ 256)"
  then obtain s1 where pre: "msg_sender e = credexAgent s" "active (agents s a)" "usdc_ok e"
    and s1: "accrueInterest e a s = Inr s1"
    and ple: "unat (principal (agents s1 a)) \<le> unat (debt (agents s1 a))"
    and gle: "min (unat amount) (unat (debt (agents s1 a))) \<le> unat (globalTotalDebt s1)"
    and fits: "unat (totalLiquidity s1) + min (unat amount) (unat (debt (agents s1 a))) < 2 ^ 256"
    by blast
  let ?acc = "agents s1 a"
  define eff where "eff = (if amount > debt ?acc then debt ?acc else amount)"
  have ueff: "unat eff = min (unat amount) (unat (debt ?acc))"
    by (auto simp: eff_def word_less_nat_alt)
  have owed: "checked_sub (debt ?acc) (principal ?acc) = Inr (debt ?acc - principal ?acc)"
    and uowed: "unat (debt ?acc - principal ?acc) = unat (debt ?acc) - unat (principal ?acc)"
    using ple by (simp_all add: checked_sub_def unat_sub word_le_nat_alt)
  have d: "checked_sub (debt ?acc) eff = Inr (debt ?acc - eff)"
    using ueff by (simp add: checked_sub_def)
  have g: "checked_sub (globalTotalDebt s1) eff = Inr (globalTotalDebt s1 - eff)"
    using gle ueff by (simp add: checked_sub_def)
  have tl: "checked_add (totalLiquidity s1) eff = Inr (totalLiquidity s1 + eff)"
    using fits ueff by (simp add: checked_add_def)
  show "\<exists>s'. repay e a amount s = Inr s'"
  proof (cases "eff \<le> debt ?acc - principal ?acc")
    case True
    then show ?thesis
      unfolding repay_def onlyAgent_def Let_def
      using pre by (simp add: s1 owed eff_def [symmetric] d g tl)
  next
    case False
    then have gt: "unat (debt ?acc) - unat (principal ?acc) < unat eff"
      by (simp add: word_le_nat_alt uowed)
    then have pr: "checked_sub eff (debt ?acc - principal ?acc)
                    = Inr (eff - (debt ?acc - principal ?acc))"
      and upr: "unat (eff - (debt ?acc - principal ?acc))
                    = unat eff - (unat (debt ?acc) - unat (principal ?acc))"
      by (simp_all add: checked_sub_def uowed unat_sub word_le_nat_alt)
    have "unat eff - (unat (debt ?acc) - unat (principal ?acc)) \<le> unat (principal ?acc)"
      using ueff ple by simp
    then obtain p where p: "checked_sub (principal ?acc) (eff - (debt ?acc - principal ?acc)) = Inr p"
      by (simp add: checked_sub_def upr)
    show ?thesis
      unfolding repay_def onlyAgent_def Let_def
      using pre False by (simp add: s1 owed eff_def [symmetric] pr d p g tl)
  qed
qed

section \<open>Conservation\<close>

lemma sum_upd:
  fixes m :: "address \<Rightarrow> 'v" and h :: "'v \<Rightarrow> nat"
  shows "(\<Sum>b\<in>UNIV. h ((m(a := x)) b)) + h (m a) = (\<Sum>b\<in>UNIV. h (m b)) + h x"
proof -
  have 1: "(\<Sum>b\<in>UNIV. h ((m(a := x)) b)) = h x + (\<Sum>b\<in>UNIV - {a}. h ((m(a := x)) b))"
    using sum.remove [of UNIV a "\<lambda>b. h ((m(a := x)) b)"] by simp
  have 2: "(\<Sum>b\<in>UNIV. h (m b)) = h (m a) + (\<Sum>b\<in>UNIV - {a}. h (m b))"
    using sum.remove [of UNIV a "\<lambda>b. h (m b)"] by simp
  have 3: "(\<Sum>b\<in>UNIV - {a}. h ((m(a := x)) b)) = (\<Sum>b\<in>UNIV - {a}. h (m b))"
    by (rule sum.cong) simp_all
  show ?thesis using 1 2 3 by simp
qed

lemma sumDebt_upd:
  "agents s' = (agents s)(a := acc) \<Longrightarrow>
   sumDebt s' + unat (debt (agents s a)) = sumDebt s + unat (debt acc)"
  using sum_upd [of "\<lambda>x. unat (debt x)" "agents s" a acc] by (simp add: sumDebt_def)

lemma sumShares_upd:
  "lpShares s' = (lpShares s)(a := v) \<Longrightarrow>
   sumShares s' + unat (lpShares s a) = sumShares s + unat v"
  using sum_upd [of unat "lpShares s" a v] by (simp add: sumShares_def)

lemma sumDebt_ge: "unat (debt (agents s a)) \<le> sumDebt s"
  unfolding sumDebt_def by (rule member_le_sum) simp_all

lemma sumShares_ge: "unat (lpShares s a) \<le> sumShares s"
  unfolding sumShares_def by (rule member_le_sum) simp_all

lemma books_constructor: "books_balance (constructor e agent)"
  by (simp add: books_balance_def sumShares_def sumDebt_def inactive_clean_def constructor_def
      zero_account_def)

lemma deposit_lpShares:
  assumes "deposit e assets s = Inr s'"
  shows "lpShares s' = (lpShares s)(msg_sender e := lpShares s' (msg_sender e))"
  using deposit_Inr(4) [OF assms] by (auto simp: fun_eq_iff)

lemma withdraw_lpShares:
  assumes "withdraw e shares s = Inr s'"
  shows "lpShares s' = (lpShares s)(msg_sender e := lpShares s' (msg_sender e))"
  using withdraw_Inr(7) [OF assms] by (auto simp: fun_eq_iff)

lemma books_deposit:
  assumes inv: "books_balance s" and ok: "deposit e assets s = Inr s'"
  shows "books_balance s'"
proof -
  have "sumShares s' + unat (lpShares s (msg_sender e))
          = sumShares s + unat (lpShares s' (msg_sender e))"
    by (rule sumShares_upd [OF deposit_lpShares [OF ok]])
  then have "sumShares s' = unat (totalShares s')"
    using deposit_Inr(1,2) [OF ok] inv by (simp add: books_balance_def)
  moreover have "sumDebt s' = sumDebt s" "inactive_clean s' = inactive_clean s"
    using deposit_Inr(5) [OF ok] by (simp_all add: sumDebt_def inactive_clean_def)
  ultimately show ?thesis
    using inv deposit_Inr(6) [OF ok] by (simp add: books_balance_def)
qed

lemma books_withdraw:
  assumes inv: "books_balance s" and ok: "withdraw e shares s = Inr s'"
  shows "books_balance s'"
proof -
  have "sumShares s' + unat (lpShares s (msg_sender e))
          = sumShares s + unat (lpShares s' (msg_sender e))"
    by (rule sumShares_upd [OF withdraw_lpShares [OF ok]])
  then have "sumShares s' = unat (totalShares s')"
    using withdraw_Inr(1,2,4,5) [OF ok] inv by (simp add: books_balance_def)
  moreover have "sumDebt s' = sumDebt s" "inactive_clean s' = inactive_clean s"
    using withdraw_Inr(8) [OF ok] by (simp_all add: sumDebt_def inactive_clean_def)
  ultimately show ?thesis
    using inv withdraw_Inr(9) [OF ok] by (simp add: books_balance_def)
qed

lemma books_agents_only:
  assumes inv: "books_balance s"
    and upd: "agents s' = (agents s)(a := acc)"
    and same: "lpShares s' = lpShares s" "totalShares s' = totalShares s"
    and debt: "unat (debt acc) + unat (globalTotalDebt s) = unat (debt (agents s a)) + unat (globalTotalDebt s')"
    and act: "\<not> active acc \<longrightarrow> debt acc = 0"
  shows "books_balance s'"
proof -
  have "sumDebt s' + unat (debt (agents s a)) = sumDebt s + unat (debt acc)"
    by (rule sumDebt_upd [OF upd])
  then have "sumDebt s' = unat (globalTotalDebt s')"
    using debt inv by (simp add: books_balance_def)
  moreover have "sumShares s' = sumShares s" using same by (simp add: sumShares_def)
  moreover have "inactive_clean s'"
    using inv act upd by (simp add: books_balance_def inactive_clean_def)
  ultimately show ?thesis using inv same by (simp add: books_balance_def)
qed

lemma books_accrue:
  assumes inv: "books_balance s" and ok: "accrueInterest e a s = Inr s'"
  shows "books_balance s'"
  using ok
proof (cases rule: accrue_cases)
  case skip
  with inv show ?thesis by simp
next
  case idle
  with inv show ?thesis by simp
next
  case (accrued d la g)
  show ?thesis
  proof (rule books_agents_only [OF inv, where a = a
        and acc = "(agents s a)\<lparr>debt := d, lastAccrued := la\<rparr>"])
    show "\<not> active ((agents s a)\<lparr>debt := d, lastAccrued := la\<rparr>) \<longrightarrow>
          debt ((agents s a)\<lparr>debt := d, lastAccrued := la\<rparr>) = 0"
      using inv accrued(2) by (auto simp: books_balance_def inactive_clean_def)
  qed (use accrued in simp_all)
qed

lemma books_borrow:
  assumes inv: "books_balance s" and ok: "borrow e a amount s = Inr s'"
  shows "books_balance s'"
  using ok
proof (cases rule: borrow_cases)
  case (1 s1 p d tl g)
  have inv1: "books_balance s1" by (rule books_accrue [OF inv 1(4)])
  have act1: "active (agents s1 a)" using accrue_frame(5) [OF 1(4)] 1(2) by simp
  show ?thesis
  proof (rule books_agents_only [OF inv1, where a = a
        and acc = "(agents s1 a)\<lparr>principal := p, debt := d\<rparr>"])
  qed (use 1 act1 in simp_all)
qed

lemma books_repay:
  assumes inv: "books_balance s" and ok: "repay e a amount s = Inr s'"
  shows "books_balance s'"
  using ok
proof (cases rule: repay_cases)
  case (1 s1 acc' g tl eff owed)
  have inv1: "books_balance s1" by (rule books_accrue [OF inv 1(3)])
  have act1: "active (agents s1 a)" using accrue_frame(5) [OF 1(3)] 1(2) by simp
  have effle: "eff \<le> unat (debt (agents s1 a))" using 1(5) by simp
  show ?thesis
  proof (rule books_agents_only [OF inv1, where a = a and acc = acc'])
    show "unat (debt acc') + unat (globalTotalDebt s1)
            = unat (debt (agents s1 a)) + unat (globalTotalDebt s')"
      using 1(8,16,17,19) effle by simp
  qed (use 1 act1 in simp_all)
qed

lemma books_onboardAgent:
  assumes inv: "books_balance s" and ok: "onboardAgent e a limit s = Inr s'"
  shows "books_balance s'"
proof -
  have na: "\<not> active (agents s a)"
    and s': "s' = s\<lparr>agents := (agents s)(a :=
             \<lparr>debt = 0, principal = 0, creditLimit = limit,
              lastAccrued = block_timestamp e, lastRepayment = block_timestamp e,
              frozen = False, active = True\<rparr>)\<rparr>"
    using ok by (simp_all add: onboardAgent_def onlyAgent_def split: if_splits)
  have z: "debt (agents s a) = 0"
    using inv na by (simp add: books_balance_def inactive_clean_def)
  show ?thesis
    by (rule books_agents_only [OF inv, where a = a and acc = "agents s' a"])
      (simp_all add: s' z)
qed

lemma books_setCreditLimit:
  assumes inv: "books_balance s" and ok: "setCreditLimit e a limit s = Inr s'"
  shows "books_balance s'"
proof -
  have act: "active (agents s a)"
    and s': "s' = s\<lparr>agents := (agents s)(a := (agents s a)\<lparr>creditLimit := limit\<rparr>)\<rparr>"
    using ok by (simp_all add: setCreditLimit_def onlyAgent_def split: if_splits)
  show ?thesis
    by (rule books_agents_only [OF inv, where a = a and acc = "agents s' a"])
      (simp_all add: s' act)
qed

lemma books_freeze:
  assumes inv: "books_balance s" and ok: "freeze e a s = Inr s'"
  shows "books_balance s'"
proof -
  have act: "active (agents s a)"
    and s': "s' = s\<lparr>agents := (agents s)(a := (agents s a)\<lparr>frozen := True\<rparr>)\<rparr>"
    using ok by (simp_all add: freeze_def onlyAgent_def split: if_splits)
  show ?thesis
    by (rule books_agents_only [OF inv, where a = a and acc = "agents s' a"])
      (simp_all add: s' act)
qed

lemma books_unfreeze:
  assumes inv: "books_balance s" and ok: "unfreeze e a s = Inr s'"
  shows "books_balance s'"
proof -
  have act: "active (agents s a)"
    and s': "s' = s\<lparr>agents := (agents s)(a := (agents s a)\<lparr>frozen := False\<rparr>)\<rparr>"
    using ok by (simp_all add: unfreeze_def onlyAgent_def split: if_splits)
  show ?thesis
    by (rule books_agents_only [OF inv, where a = a and acc = "agents s' a"])
      (simp_all add: s' act)
qed

lemma books_setAgent:
  assumes inv: "books_balance s" and ok: "setAgent e a s = Inr s'"
  shows "books_balance s'"
proof -
  have "s' = s\<lparr>credexAgent := a\<rparr>"
    using ok by (simp add: setAgent_def onlyOwner_def split: if_splits)
  then show ?thesis
    using inv by (simp add: books_balance_def sumShares_def sumDebt_def inactive_clean_def)
qed

lemma books_exec:
  assumes inv: "books_balance s" and ok: "exec e c s = Inr s'"
  shows "books_balance s'"
  using ok
  by (cases c)
    (auto intro: books_deposit [OF inv] books_withdraw [OF inv] books_onboardAgent [OF inv]
      books_setCreditLimit [OF inv] books_borrow [OF inv] books_repay [OF inv]
      books_freeze [OF inv] books_unfreeze [OF inv] books_setAgent [OF inv]
      books_accrue [OF inv])

lemma books_transact: "books_balance s \<Longrightarrow> books_balance (transact e c s)"
  by (cases "exec e c s") (auto simp: transact_def intro: books_exec)

lemma books_run: "books_balance s \<Longrightarrow> books_balance (run txs s)"
proof (induction txs arbitrary: s)
  case Nil
  then show ?case by simp
next
  case (Cons tx txs)
  obtain e c where tx: "tx = (e, c)" by (cases tx)
  have "books_balance (transact e c s)" by (rule books_transact [OF Cons.prems])
  then show ?case unfolding tx by (simp add: Cons.IH)
qed

section \<open>Debt covers principal\<close>

lemma dcp_upd:
  assumes "debt_covers_principal s" "agents s' = (agents s)(a := acc)"
    "unat (principal acc) \<le> unat (debt acc)"
  shows "debt_covers_principal s'"
  using assms by (simp add: debt_covers_principal_def)

lemma dcp_same:
  assumes "debt_covers_principal s" "agents s' = agents s"
  shows "debt_covers_principal s'"
  using assms by (simp add: debt_covers_principal_def)

lemma dcp_at: "debt_covers_principal s \<Longrightarrow> unat (principal (agents s a)) \<le> unat (debt (agents s a))"
  by (simp add: debt_covers_principal_def)

lemma dcp_accrue:
  assumes inv: "debt_covers_principal s" and ok: "accrueInterest e a s = Inr s'"
  shows "debt_covers_principal s'"
proof (rule dcp_upd [OF inv accrue_frame(6) [OF ok]])
  show "unat (principal (agents s' a)) \<le> unat (debt (agents s' a))"
    using dcp_at [OF inv, of a] accrue_frame(1,12) [OF ok] by simp
qed

lemma dcp_borrow:
  assumes inv: "debt_covers_principal s" and ok: "borrow e a amount s = Inr s'"
  shows "debt_covers_principal s'"
  using ok
proof (cases rule: borrow_cases)
  case (1 s1 p d tl g)
  have inv1: "debt_covers_principal s1" by (rule dcp_accrue [OF inv 1(4)])
  show ?thesis
    by (rule dcp_upd [OF inv1, where a = a and acc = "(agents s1 a)\<lparr>principal := p, debt := d\<rparr>"])
      (use 1 dcp_at [OF inv1, of a] in simp_all)
qed

lemma dcp_repay:
  assumes inv: "debt_covers_principal s" and ok: "repay e a amount s = Inr s'"
  shows "debt_covers_principal s'"
  using ok
proof (cases rule: repay_cases)
  case (1 s1 acc' g tl eff owed)
  have inv1: "debt_covers_principal s1" by (rule dcp_accrue [OF inv 1(3)])
  have effle: "eff \<le> unat (debt (agents s1 a))" using 1(5) by simp
  have "unat (principal acc') \<le> unat (debt acc')"
  proof (cases "eff \<le> owed")
    case True
    then have "principal acc' = principal (agents s1 a)" using 1(9) by simp
    then show ?thesis using 1(6,7,8) True by simp
  next
    case False
    then have "unat (principal acc') = unat (principal (agents s1 a)) - (eff - owed)"
      using 1(10) by simp
    then show ?thesis using 1(6,7,8) False effle by simp
  qed
  then show ?thesis
    by (rule dcp_upd [OF inv1, where a = a and acc = acc', rotated]) (simp add: 1(19))
qed

lemma dcp_exec:
  assumes inv: "debt_covers_principal s" and ok: "exec e c s = Inr s'"
  shows "debt_covers_principal s'"
proof (cases c)
  case (Deposit x)
  then show ?thesis using ok inv deposit_Inr(5) [of e x s s'] by (simp add: dcp_same)
next
  case (Withdraw x)
  then show ?thesis using ok inv withdraw_Inr(8) [of e x s s'] by (simp add: dcp_same)
next
  case (OnboardAgent a l)
  then have "s' = s\<lparr>agents := (agents s)(a :=
             \<lparr>debt = 0, principal = 0, creditLimit = l,
              lastAccrued = block_timestamp e, lastRepayment = block_timestamp e,
              frozen = False, active = True\<rparr>)\<rparr>"
    using ok by (simp add: onboardAgent_def onlyAgent_def split: if_splits)
  then show ?thesis using inv by (simp add: debt_covers_principal_def)
next
  case (SetCreditLimit a l)
  then have "s' = s\<lparr>agents := (agents s)(a := (agents s a)\<lparr>creditLimit := l\<rparr>)\<rparr>"
    using ok by (simp add: setCreditLimit_def onlyAgent_def split: if_splits)
  then show ?thesis using inv by (simp add: debt_covers_principal_def)
next
  case (Borrow a x)
  then show ?thesis using ok inv by (simp add: dcp_borrow)
next
  case (Repay a x)
  then show ?thesis using ok inv by (simp add: dcp_repay)
next
  case (Freeze a)
  then have "s' = s\<lparr>agents := (agents s)(a := (agents s a)\<lparr>frozen := True\<rparr>)\<rparr>"
    using ok by (simp add: freeze_def onlyAgent_def split: if_splits)
  then show ?thesis using inv by (simp add: debt_covers_principal_def)
next
  case (Unfreeze a)
  then have "s' = s\<lparr>agents := (agents s)(a := (agents s a)\<lparr>frozen := False\<rparr>)\<rparr>"
    using ok by (simp add: unfreeze_def onlyAgent_def split: if_splits)
  then show ?thesis using inv by (simp add: debt_covers_principal_def)
next
  case (SetAgent a)
  then have "s' = s\<lparr>credexAgent := a\<rparr>"
    using ok by (simp add: setAgent_def onlyOwner_def split: if_splits)
  then show ?thesis using inv by (simp add: debt_covers_principal_def)
next
  case (AccrueInterest a)
  then show ?thesis using ok inv by (simp add: dcp_accrue)
qed

lemma dcp_transact: "debt_covers_principal s \<Longrightarrow> debt_covers_principal (transact e c s)"
  by (cases "exec e c s") (auto simp: transact_def intro: dcp_exec)

lemma dcp_run: "debt_covers_principal s \<Longrightarrow> debt_covers_principal (run txs s)"
proof (induction txs arbitrary: s)
  case Nil
  then show ?case by simp
next
  case (Cons tx txs)
  obtain e c where tx: "tx = (e, c)" by (cases tx)
  have "debt_covers_principal (transact e c s)" by (rule dcp_transact [OF Cons.prems])
  then show ?case unfolding tx by (simp add: Cons.IH)
qed

lemma dcp_constructor: "debt_covers_principal (constructor e agent)"
  by (simp add: debt_covers_principal_def constructor_def zero_account_def)

lemma onboardAgent_fresh:
  "onboardAgent e a limit s = Inr s' \<Longrightarrow> debt (agents s' a) = 0 \<and> principal (agents s' a) = 0"
  by (auto simp: onboardAgent_def onlyAgent_def split: if_splits)

section \<open>The credit limit check\<close>

lemma borrow_ExceedsLimit_iff:
  "borrow e a amount s = Inl (Revert ''Exceeds limit'') \<longleftrightarrow>
     msg_sender e = credexAgent s \<and> active (agents s a) \<and> \<not> frozen (agents s a) \<and>
     (\<exists>s1. accrueInterest e a s = Inr s1) \<and>
     unat (principal (agents s a)) + unat amount < 2 ^ 256 \<and>
     unat (creditLimit (agents s a)) < unat (principal (agents s a)) + unat amount"
proof (cases "msg_sender e = credexAgent s \<and> active (agents s a) \<and> \<not> frozen (agents s a)")
  case False
  then show ?thesis by (auto simp: borrow_def onlyAgent_def)
next
  case pre: True
  show ?thesis
  proof (cases "accrueInterest e a s")
    case (Inl err)
    then have "err = ArithmeticPanic" by (rule accrue_Inl)
    with Inl pre show ?thesis by (simp add: borrow_def onlyAgent_def)
  next
    case (Inr s1)
    have p: "principal (agents s1 a) = principal (agents s a)"
      and l: "creditLimit (agents s1 a) = creditLimit (agents s a)"
      using accrue_frame(1,2) [OF Inr] by simp_all
    show ?thesis
    proof (cases "unat (principal (agents s a)) + unat amount < 2 ^ 256")
      case False
      then have "checked_add (principal (agents s a)) amount = Inl ArithmeticPanic"
        by (simp add: checked_add_def)
      with False Inr pre p show ?thesis by (simp add: borrow_def onlyAgent_def Let_def)
    next
      case fits: True
      then have w: "checked_add (principal (agents s a)) amount
                      = Inr (principal (agents s a) + amount)"
        and uw: "unat (principal (agents s a) + amount)
                      = unat (principal (agents s a)) + unat amount"
        by (simp_all add: checked_add_def unat_add_lem [THEN iffD1])
      show ?thesis
      proof (cases "unat (creditLimit (agents s a)) < unat (principal (agents s a)) + unat amount")
        case True
        then have "\<not> principal (agents s a) + amount \<le> creditLimit (agents s a)"
          by (simp add: word_le_nat_alt uw)
        with True fits Inr pre p l w show ?thesis
          by (simp add: borrow_def onlyAgent_def Let_def)
      next
        case False
        then have le: "principal (agents s a) + amount \<le> creditLimit (agents s a)"
          by (simp add: word_le_nat_alt uw)
        have "borrow e a amount s \<noteq> Inl (Revert ''Exceeds limit'')"
          using Inr pre p l le fits
          by (simp add: borrow_def onlyAgent_def Let_def and_then_def checked_add_def
              checked_sub_def split: sum.splits)
        with False show ?thesis by simp
      qed
    qed
  qed
qed

lemma borrow_overflow:
  assumes "msg_sender e = credexAgent s" "active (agents s a)" "\<not> frozen (agents s a)"
    and "2 ^ 256 \<le> unat (principal (agents s a)) + unat amount"
  shows "borrow e a amount s = Inl ArithmeticPanic"
proof (cases "accrueInterest e a s")
  case (Inl err)
  then have "err = ArithmeticPanic" by (rule accrue_Inl)
  with Inl assms show ?thesis by (simp add: borrow_def onlyAgent_def)
next
  case (Inr s1)
  have p: "principal (agents s1 a) = principal (agents s a)"
    using accrue_frame(1) [OF Inr] by simp
  have "checked_add (principal (agents s a)) amount = Inl ArithmeticPanic"
    using assms(4) by (simp add: checked_add_def)
  with Inr assms p show ?thesis by (simp add: borrow_def onlyAgent_def Let_def)
qed

lemma availableCredit_unat:
  "unat (availableCredit s a) =
     (if \<not> active (agents s a) \<or> frozen (agents s a) then 0
      else unat (creditLimit (agents s a)) - unat (principal (agents s a)))"
  by (auto simp: availableCredit_def Let_def word_le_nat_alt unat_sub)

section \<open>The handlers\<close>

lemma bigint_div_100: "bigint_div (a * 100) 100 = a"
  by (cases "a < 0") (auto simp: bigint_div_def sgn_if abs_mult)

lemma bigint_div_nonneg: "0 \<le> a \<Longrightarrow> 0 < b \<Longrightarrow> bigint_div a b = a div b"
  by (auto simp: bigint_div_def sgn_if)

lemma calculateInitialLimit_eq: "calculateInitialLimit w f = 500 * \<lfloor>fl_mul w f 100\<rfloor>"
proof -
  have "INITIAL_LIMIT_BASE * \<lfloor>fl_mul w f 100\<rfloor> = (500 * \<lfloor>fl_mul w f 100\<rfloor>) * 100"
    by (simp add: INITIAL_LIMIT_BASE_def)
  then show ?thesis
    unfolding calculateInitialLimit_def Let_def by (simp only: bigint_div_100)
qed

lemma uint_encode: "encode_uint256 v = Some l \<Longrightarrow> uint l = v"
  by (auto simp: encode_uint256_def uint_word_of_int take_bit_eq_mod split: if_splits)

lemma getAgentState_fields:
  assumes "getAgentState e s a = Inr acc"
  shows "creditLimit acc = creditLimit (agents s a)" "active acc = active (agents s a)"
    "principal acc = principal (agents s a)" "frozen acc = frozen (agents s a)"
  using assms by (auto simp: getAgentState_def Let_def and_then_eq_Inr)

lemma handleOnboard_active:
  assumes "getAgentState (env_at w k) s a = Inr existing" "active (agents s a)"
  shows "handleOnboard w k a agentId s =
     (\<lparr>success = False, message = Some (Text ''Agent already onboarded''),
       data = Some (ExistingAccount (uint (debt existing)) (uint (creditLimit (agents s a))))\<rparr>, s)"
  using assms getAgentState_fields(1,2) [OF assms(1)] by (simp add: handleOnboard_def)

lemma handleOnboard_success:
  assumes "handleOnboard w k a agentId s = (r, s')" "success r"
  shows "\<not> active (agents s a)"
    and "onboardAgent (env_at w (k + 1)) a (creditLimit (agents s' a)) s = Inr s'"
    and "uint (creditLimit (agents s' a)) = calculateInitialLimit w (repFactor_used w agentId)"
    and "data r = Some (OnboardedAccount a agentId
           (calculateInitialLimit w (repFactor_used w agentId)) (repFactor_used w agentId))"
    and "active (agents s' a)" and "debt (agents s' a) = 0" and "principal (agents s' a) = 0"
proof -
  obtain existing where ex: "getAgentState (env_at w k) s a = Inr existing"
    using assms by (cases "getAgentState (env_at w k) s a") (auto simp: handleOnboard_def failed_def)
  have na: "\<not> active existing"
    using assms ex by (auto simp: handleOnboard_def split: if_splits)
  then show "\<not> active (agents s a)" using getAgentState_fields(2) [OF ex] by simp
  let ?f = "repFactor_used w agentId"
  obtain l where l: "encode_uint256 (calculateInitialLimit w ?f) = Some l"
    using assms ex na
    by (cases "encode_uint256 (calculateInitialLimit w ?f)")
      (auto simp: handleOnboard_def failed_def repFactor_used_def Let_def)
  obtain s1 where s1: "onboardAgent (env_at w (k + 1)) a l s = Inr s1"
    using assms ex na l
    by (cases "onboardAgent (env_at w (k + 1)) a l s")
      (auto simp: handleOnboard_def failed_def repFactor_used_def Let_def)
  have res: "s' = s1" "data r = Some (OnboardedAccount a agentId
           (calculateInitialLimit w ?f) ?f)"
    using assms ex na l s1 by (auto simp: handleOnboard_def repFactor_used_def Let_def)
  have fields: "creditLimit (agents s1 a) = l" "active (agents s1 a)" "debt (agents s1 a) = 0"
    "principal (agents s1 a) = 0"
    using s1 by (auto simp: onboardAgent_def onlyAgent_def split: if_splits)
  show "onboardAgent (env_at w (k + 1)) a (creditLimit (agents s' a)) s = Inr s'"
    using s1 fields res by simp
  show "uint (creditLimit (agents s' a)) = calculateInitialLimit w ?f"
    using uint_encode [OF l] fields res by simp
  show "data r = Some (OnboardedAccount a agentId (calculateInitialLimit w ?f) ?f)"
    by (rule res(2))
  show "active (agents s' a)" "debt (agents s' a) = 0" "principal (agents s' a) = 0"
    using fields res by simp_all
qed

lemma repFactor_default:
  assumes "BigInt_of w agentId = None \<or> BigInt_of w agentId = Some 0 \<or>
    (\<exists>i. BigInt_of w agentId = Some i \<and> (feedback w i = None \<or> feedback w i = Some []))"
  shows "repFactor_used w agentId = 1"
  using assms
  by (auto simp: repFactor_used_def getRepFactorByAgentId_def calculateReputationScore_def
      getFeedbackEntries_def)

lemma calculateInitialLimit_exact:
  assumes "fl_mul w f 100 = f * 100" "f * 100 = real_of_int k"
  shows "calculateInitialLimit w f = \<lfloor>real_of_int INITIAL_LIMIT_BASE * f\<rfloor>"
proof -
  have "real_of_int INITIAL_LIMIT_BASE * f = real_of_int (500 * k)"
    using assms(2) by (simp add: INITIAL_LIMIT_BASE_def)
  then have "\<lfloor>real_of_int INITIAL_LIMIT_BASE * f\<rfloor> = 500 * k" by (simp only: floor_of_int)
  moreover have "\<lfloor>fl_mul w f 100\<rfloor> = k" using assms by simp
  ultimately show ?thesis by (simp add: calculateInitialLimit_eq)
qed

lemma calculateInitialLimit_le:
  assumes "fl_mul w f 100 = f * 100"
  shows "calculateInitialLimit w f \<le> \<lfloor>real_of_int INITIAL_LIMIT_BASE * f\<rfloor>"
proof -
  have a: "real_of_int \<lfloor>f * 100\<rfloor> \<le> f * 100" by (rule of_int_floor_le)
  have "real_of_int (500 * \<lfloor>f * 100\<rfloor>) = 500 * real_of_int \<lfloor>f * 100\<rfloor>" by simp
  also have "\<dots> \<le> 500 * (f * 100)" using a by (rule mult_left_mono) simp
  also have "\<dots> = real_of_int INITIAL_LIMIT_BASE * f" by (simp add: INITIAL_LIMIT_BASE_def)
  finally have "real_of_int (500 * \<lfloor>f * 100\<rfloor>) \<le> real_of_int INITIAL_LIMIT_BASE * f" .
  then have "500 * \<lfloor>f * 100\<rfloor> \<le> \<lfloor>real_of_int INITIAL_LIMIT_BASE * f\<rfloor>"
    by (simp only: le_floor_iff)
  then show ?thesis by (simp add: calculateInitialLimit_eq assms)
qed

lemma calculateGrowthLimit_uint:
  "calculateGrowthLimit (uint (l :: uint256)) = min (uint l * 110 div 100) MAX_LIMIT"
  by (simp add: calculateGrowthLimit_def Let_def GROWTH_FACTOR_BP_def bigint_div_nonneg min_def)

lemma calculateGrowthLimit_le: "calculateGrowthLimit L \<le> MAX_LIMIT"
  by (simp add: calculateGrowthLimit_def Let_def)

lemma calculateGrowthLimit_cap: "calculateGrowthLimit MAX_LIMIT = MAX_LIMIT"
  by (simp add: calculateGrowthLimit_def Let_def GROWTH_FACTOR_BP_def MAX_LIMIT_def bigint_div_def)

lemma ensureActiveAgent_Inr:
  assumes "ensureActiveAgent w k a s = (Inr agent, s1)"
  shows "creditLimit agent = creditLimit (agents s1 a) \<and> active (agents s1 a)"
proof -
  obtain acc where acc: "getAgentState (env_at w k) s a = Inr acc"
    using assms by (cases "getAgentState (env_at w k) s a") (auto simp: ensureActiveAgent_def)
  show ?thesis
  proof (cases "active acc")
    case True
    then have "agent = acc" "s1 = s" using assms acc by (auto simp: ensureActiveAgent_def)
    then show ?thesis
      using getAgentState_fields(1,2) [OF acc] True by simp
  next
    case False
    obtain r s0 where h: "handleOnboard w (k + 1) a ''0'' s = (r, s0)"
      by (cases "handleOnboard w (k + 1) a ''0'' s")
    have ok: "success r"
      using assms acc False h by (auto simp: ensureActiveAgent_def split: if_splits)
    obtain acc' where acc': "getAgentState (env_at w (k + 3)) s0 a = Inr acc'"
      using assms acc False h ok
      by (cases "getAgentState (env_at w (k + 3)) s0 a") (auto simp: ensureActiveAgent_def)
    have "agent = acc'" "s1 = s0"
      using assms acc False h ok acc' by (auto simp: ensureActiveAgent_def)
    then show ?thesis
      using getAgentState_fields(1) [OF acc'] handleOnboard_success(5) [OF h ok] by simp
  qed
qed

lemma repay_creditLimit:
  assumes "repay e a amount s = Inr s'"
  shows "creditLimit (agents s' a) = creditLimit (agents s a)"
  using assms
proof (cases rule: repay_cases)
  case (1 s1 acc' g tl eff owed)
  show ?thesis
    using 1(11,19) accrue_frame(2) [OF 1(3)] by simp
qed

lemma growLimit_Inr:
  assumes "growLimit w k a agent s = Inr s'" "creditLimit agent = creditLimit (agents s a)"
  shows "uint (creditLimit (agents s' a))
           = max (uint (creditLimit (agents s a))) (calculateGrowthLimit (uint (creditLimit (agents s a))))"
    and "calculateGrowthLimit (uint (creditLimit (agents s a))) \<le> uint (creditLimit (agents s a))
           \<longrightarrow> s' = s"
    and "uint (creditLimit (agents s a)) < calculateGrowthLimit (uint (creditLimit (agents s a)))
           \<longrightarrow> (\<exists>l. setCreditLimit (env_at w k) a l s = Inr s' \<and>
                     uint l = calculateGrowthLimit (uint (creditLimit (agents s a))))"
proof -
  let ?L = "uint (creditLimit (agents s a))"
  let ?N = "calculateGrowthLimit ?L"
  have "uint (creditLimit (agents s' a)) = max ?L ?N \<and> (?N \<le> ?L \<longrightarrow> s' = s) \<and>
    (?L < ?N \<longrightarrow> (\<exists>l. setCreditLimit (env_at w k) a l s = Inr s' \<and> uint l = ?N))"
  proof (cases "?N > ?L")
    case False
    then have "s' = s" using assms by (simp add: growLimit_def Let_def)
    with False show ?thesis by simp
  next
    case True
    obtain l where l: "encode_uint256 ?N = Some l"
      using assms True by (cases "encode_uint256 ?N") (auto simp: growLimit_def Let_def)
    have set: "setCreditLimit (env_at w k) a l s = Inr s'"
      using assms True l
      by (cases "setCreditLimit (env_at w k) a l s") (auto simp: growLimit_def Let_def)
    then have "creditLimit (agents s' a) = l"
      by (auto simp: setCreditLimit_def onlyAgent_def split: if_splits)
    then show ?thesis using True uint_encode [OF l] set by auto
  qed
  then show "uint (creditLimit (agents s' a)) = max ?L ?N" and "?N \<le> ?L \<longrightarrow> s' = s"
    and "?L < ?N \<longrightarrow> (\<exists>l. setCreditLimit (env_at w k) a l s = Inr s' \<and> uint l = ?N)"
    by simp_all
qed

lemma handleRepay_success:
  assumes h: "handleRepay w a amount s = (r, s')" and ok: "success r"
  obtains amountWei agent s1 amt s2 where
    "parseUnits w amount = Some amountWei" "ensureActiveAgent w 0 a s = (Inr agent, s1)"
    "encode_uint256 amountWei = Some amt" "repay (env_at w 4) a amt s1 = Inr s2"
    "growLimit w 5 a agent s2 = Inr s'"
proof -
  obtain amountWei where p: "parseUnits w amount = Some amountWei"
    using h ok by (cases "parseUnits w amount") (auto simp: handleRepay_def failed_def)
  obtain res s1 where e: "ensureActiveAgent w 0 a s = (res, s1)"
    by (cases "ensureActiveAgent w 0 a s")
  obtain agent where ag: "res = Inr agent"
    using h ok p e by (cases res) (auto simp: handleRepay_def failed_def)
  obtain amt where amt: "encode_uint256 amountWei = Some amt"
    using h ok p e ag by (cases "encode_uint256 amountWei") (auto simp: handleRepay_def failed_def)
  obtain s2 where s2: "repay (env_at w 4) a amt s1 = Inr s2"
    using h ok p e ag amt
    by (cases "repay (env_at w 4) a amt s1") (auto simp: handleRepay_def failed_def)
  obtain s3 where s3: "growLimit w 5 a agent s2 = Inr s3"
    using h ok p e ag amt s2
    by (cases "growLimit w 5 a agent s2") (auto simp: handleRepay_def failed_def)
  have "s' = s3"
    using h ok p e ag amt s2 s3
    by (cases "getAgentState (env_at w 6) s3 a") (auto simp: handleRepay_def failed_def)
  then show thesis using that [OF p] e ag amt s2 s3 by simp
qed

section \<open>The example runs, evaluated\<close>

lemma fresh_pool_eq:
  "fresh_pool = \<lparr>credexAgent = 2, owner = 1, agents = (\<lambda>_. zero_account), lpShares = (\<lambda>_. 0),
     totalShares = 0, totalLiquidity = 0, globalTotalDebt = 0\<rparr>"
  by (simp add: fresh_pool_def constructor_def deployer_def)

lemma doubled_pool_eq:
  "doubled_pool = \<lparr>credexAgent = 2, owner = 1,
     agents = (\<lambda>_. zero_account)(4 := \<lparr>debt = 200, principal = 100, creditLimit = 100,
        lastAccrued = 60001, lastRepayment = 60001, frozen = False, active = True\<rparr>),
     lpShares = (\<lambda>_. 0)(3 := 100), totalShares = 100, totalLiquidity = 0,
     globalTotalDebt = 200\<rparr>"
  by (simp add: doubled_pool_def fresh_pool_eq provider_at_def operator_at_def contract_defs)

lemma idle_pool_eq:
  "idle_pool = \<lparr>credexAgent = 2, owner = 1,
     agents = (\<lambda>_. zero_account)(4 := \<lparr>debt = 0, principal = 0, creditLimit = 100000000,
        lastAccrued = 1, lastRepayment = 1, frozen = False, active = True\<rparr>),
     lpShares = (\<lambda>_. 0)(3 := 1000000000), totalShares = 1000000000,
     totalLiquidity = 1000000000, globalTotalDebt = 0\<rparr>"
  by (simp add: idle_pool_def fresh_pool_eq provider_at_def operator_at_def contract_defs)

lemma lent_pool_eq:
  "lent_pool = \<lparr>credexAgent = 2, owner = 1,
     agents = (\<lambda>_. zero_account)(4 := \<lparr>debt = 50000000, principal = 50000000,
        creditLimit = 100000000, lastAccrued = 1, lastRepayment = 1, frozen = False,
        active = True\<rparr>),
     lpShares = (\<lambda>_. 0)(3 := 1000000000), totalShares = 1000000000,
     totalLiquidity = 950000000, globalTotalDebt = 50000000\<rparr>"
  by (simp add: lent_pool_def idle_pool_eq operator_at_def contract_defs)

lemma accrued_pool_eq:
  "accrued_pool = \<lparr>credexAgent = 2, owner = 1,
     agents = (\<lambda>_. zero_account)(4 := \<lparr>debt = 50050000, principal = 50000000,
        creditLimit = 100000000, lastAccrued = 61, lastRepayment = 91, frozen = False,
        active = True\<rparr>),
     lpShares = (\<lambda>_. 0)(3 := 1000000000), totalShares = 1000000000,
     totalLiquidity = 950000000, globalTotalDebt = 50050000\<rparr>"
  by (simp add: accrued_pool_def lent_pool_eq operator_at_def contract_defs)

lemma locked_pool_eq:
  "locked_pool = \<lparr>credexAgent = 2, owner = 1,
     agents = (\<lambda>_. zero_account)(4 := \<lparr>debt = 60, principal = 60, creditLimit = 100,
        lastAccrued = 1, lastRepayment = 1, frozen = False, active = True\<rparr>),
     lpShares = (\<lambda>_. 0)(3 := 100), totalShares = 100, totalLiquidity = 40,
     globalTotalDebt = 60\<rparr>"
  by (simp add: locked_pool_def fresh_pool_eq provider_at_def operator_at_def contract_defs)

lemma huge_pool_eq:
  "huge_pool = \<lparr>credexAgent = 2, owner = 1,
     agents = (\<lambda>_. zero_account)(4 := \<lparr>debt = 2 ^ 200, principal = 2 ^ 200,
        creditLimit = 2 ^ 200, lastAccrued = 1, lastRepayment = 1, frozen = False,
        active = True\<rparr>),
     lpShares = (\<lambda>_. 0)(3 := 2 ^ 200), totalShares = 2 ^ 200, totalLiquidity = 0,
     globalTotalDebt = 2 ^ 200\<rparr>"
  by (simp add: huge_pool_def fresh_pool_eq provider_at_def operator_at_def contract_defs)

lemma example_world_simps:
  "signer example_world = 2" "clock example_world k = 91" "token_ok example_world k"
  "BigInt_of example_world ''0'' = Some 0" "BigInt_of example_world ''7'' = Some 7"
  "feedback example_world 7 = Some [12, 13]"
  "parseUnits example_world ''0.07'' = Some 70000"
  "fl_mul example_world x y = x * y" "fl_div example_world x y = x / y"
  by (simp_all add: example_world_def)

lemma env_at_example: "env_at example_world k = operator_at 91"
  by (simp add: env_at_def operator_at_def example_world_simps)

lemma repFactor_7: "getRepFactorByAgentId example_world ''7'' = Some (1 / 8)"
  by (simp add: getRepFactorByAgentId_def calculateReputationScore_def getFeedbackEntries_def
      example_world_simps double_0_1_def Let_def)

lemmas handler_defs = handleOnboard_def ensureActiveAgent_def handleRepay_def growLimit_def
  calculateInitialLimit_def calculateGrowthLimit_def INITIAL_LIMIT_BASE_def GROWTH_FACTOR_BP_def
  MAX_LIMIT_def bigint_div_def encode_uint256_def getAgentState_def pendingInterest_def failed_def

lemma onboard_7:
  "handleOnboard example_world 0 5 ''7'' accrued_pool =
     (\<lparr>success = True, message = Some (Text ''Agent onboarded successfully''),
       data = Some (OnboardedAccount 5 ''7'' 6000 (1 / 8))\<rparr>,
      accrued_pool\<lparr>agents := (agents accrued_pool)(5 := \<lparr>debt = 0, principal = 0,
        creditLimit = 6000, lastAccrued = 91, lastRepayment = 91, frozen = False,
        active = True\<rparr>)\<rparr>)"
  by (simp add: handler_defs env_at_example repFactor_7 example_world_simps accrued_pool_eq
      operator_at_def contract_defs)

lemma onboard_0:
  "handleOnboard example_world 0 5 ''0'' accrued_pool =
     (\<lparr>success = True, message = Some (Text ''Agent onboarded successfully''),
       data = Some (OnboardedAccount 5 ''0'' 50000 1)\<rparr>,
      accrued_pool\<lparr>agents := (agents accrued_pool)(5 := \<lparr>debt = 0, principal = 0,
        creditLimit = 50000, lastAccrued = 91, lastRepayment = 91, frozen = False,
        active = True\<rparr>)\<rparr>)"
  by (simp add: handler_defs env_at_example getRepFactorByAgentId_def example_world_simps
      accrued_pool_eq operator_at_def contract_defs)

lemma repay_007:
  "handleRepay example_world 4 ''0.07'' accrued_pool =
     (\<lparr>success = True, message = Some (Text ''Repaid 0.07 USDC''),
       data = Some (AccountBalances 49980000 110000000 60020000)\<rparr>,
      accrued_pool\<lparr>agents := (agents accrued_pool)(4 := \<lparr>debt = 49980000,
        principal = 49980000, creditLimit = 110000000, lastAccrued = 61, lastRepayment = 91,
        frozen = False, active = True\<rparr>),
        totalLiquidity := 950070000, globalTotalDebt := 49980000\<rparr>)"
  by (simp add: handler_defs env_at_example example_world_simps accrued_pool_eq
      operator_at_def contract_defs)

section \<open>Claims\<close>





text \<open>
  C3. A repayment that goes through first accrues interest; the amount taken is
  \<open>min amount debt\<close>; with \<open>interestOwed = debt - principal\<close>, the debt falls by the amount
  taken, the principal is untouched when that amount is at most \<open>interestOwed\<close> and falls by
  the excess otherwise; \<open>totalLiquidity\<close> grows by the amount taken, the debt tracker falls by
  it, and \<open>lastRepayment\<close> becomes the block time. Overpayment is capped, not rejected: a call
  with any amount at or above the debt behaves exactly as the call with the debt itself, and
  the conditions under which a repayment goes through (caller, active account, token
  transfer, accrual, no overflow of \<open>totalLiquidity\<close>, and the two subtractions that C1 and C4
  make safe in every reachable state) mention the amount only through the amount taken.
\<close>

theorem C3_repay:
  "(repay e a amount s = Inr s' \<longrightarrow>
      (\<exists>s1 paid interestOwed.
         accrueInterest e a s = Inr s1 \<and>
         paid = min (unat amount) (unat (debt (agents s1 a))) \<and>
         interestOwed = unat (debt (agents s1 a)) - unat (principal (agents s1 a)) \<and>
         unat (principal (agents s1 a)) \<le> unat (debt (agents s1 a)) \<and>
         unat (debt (agents s' a)) = unat (debt (agents s1 a)) - paid \<and>
         (paid \<le> interestOwed \<longrightarrow> principal (agents s' a) = principal (agents s1 a)) \<and>
         (interestOwed < paid \<longrightarrow>
            unat (principal (agents s' a))
              = unat (principal (agents s1 a)) - (paid - interestOwed)) \<and>
         lastRepayment (agents s' a) = block_timestamp e \<and>
         unat (globalTotalDebt s') = unat (globalTotalDebt s1) - paid \<and>
         unat (totalLiquidity s') = unat (totalLiquidity s) + paid)) \<and>
   (accrueInterest e a s = Inr s1 \<and> debt (agents s1 a) \<le> amount \<longrightarrow>
      repay e a amount s = repay e a (debt (agents s1 a)) s) \<and>
   ((\<exists>s''. repay e a amount s = Inr s'') \<longleftrightarrow>
      msg_sender e = credexAgent s \<and> active (agents s a) \<and> usdc_ok e \<and>
      (\<exists>s1. accrueInterest e a s = Inr s1 \<and>
         unat (principal (agents s1 a)) \<le> unat (debt (agents s1 a)) \<and>
         min (unat amount) (unat (debt (agents s1 a))) \<le> unat (globalTotalDebt s1) \<and>
         unat (totalLiquidity s1) + min (unat amount) (unat (debt (agents s1 a))) < 2 ^ 256))"
proof (intro conjI impI)
  show "(\<exists>s''. repay e a amount s = Inr s'') \<longleftrightarrow>
      msg_sender e = credexAgent s \<and> active (agents s a) \<and> usdc_ok e \<and>
      (\<exists>s1. accrueInterest e a s = Inr s1 \<and>
         unat (principal (agents s1 a)) \<le> unat (debt (agents s1 a)) \<and>
         min (unat amount) (unat (debt (agents s1 a))) \<le> unat (globalTotalDebt s1) \<and>
         unat (totalLiquidity s1) + min (unat amount) (unat (debt (agents s1 a))) < 2 ^ 256)"
    by (rule repay_succeeds_iff)
next
  assume ok: "repay e a amount s = Inr s'"
  then show "\<exists>s1 paid interestOwed.
         accrueInterest e a s = Inr s1 \<and>
         paid = min (unat amount) (unat (debt (agents s1 a))) \<and>
         interestOwed = unat (debt (agents s1 a)) - unat (principal (agents s1 a)) \<and>
         unat (principal (agents s1 a)) \<le> unat (debt (agents s1 a)) \<and>
         unat (debt (agents s' a)) = unat (debt (agents s1 a)) - paid \<and>
         (paid \<le> interestOwed \<longrightarrow> principal (agents s' a) = principal (agents s1 a)) \<and>
         (interestOwed < paid \<longrightarrow>
            unat (principal (agents s' a))
              = unat (principal (agents s1 a)) - (paid - interestOwed)) \<and>
         lastRepayment (agents s' a) = block_timestamp e \<and>
         unat (globalTotalDebt s') = unat (globalTotalDebt s1) - paid \<and>
         unat (totalLiquidity s') = unat (totalLiquidity s) + paid"
  proof (cases rule: repay_cases)
    case (1 s1 acc' g tl eff owed)
    have acc': "agents s' a = acc'" using 1(19) by simp
    have liq: "totalLiquidity s' = tl" "globalTotalDebt s' = g" using 1(19) by simp_all
    have same: "totalLiquidity s1 = totalLiquidity s" by (rule accrue_frame(9) [OF 1(3)])
    show ?thesis
      unfolding acc' liq same [symmetric]
      using 1(3) 1(5) 1(6) 1(7) 1(8) 1(9) 1(10) 1(15) 1(17) 1(18)
      by (intro exI [of _ s1] exI [of _ eff] exI [of _ owed] conjI)
  qed
next
  assume h: "accrueInterest e a s = Inr s1 \<and> debt (agents s1 a) \<le> amount"
  show "repay e a amount s = repay e a (debt (agents s1 a)) s"
    by (rule repay_capped [OF conjunct1 [OF h] conjunct2 [OF h]])
qed

theorem C3_repay_witness:
  "accrueInterest (operator_at 91) 4 accrued_pool = Inr accrued_pool \<and>
   unat (debt (agents accrued_pool 4)) - unat (principal (agents accrued_pool 4)) = 50000 \<and>
   (case repay (operator_at 91) 4 30000 accrued_pool of
      Inr s' \<Rightarrow> unat (debt (agents s' 4)) = 50020000 \<and> unat (principal (agents s' 4)) = 50000000 \<and>
                unat (totalLiquidity s') = unat (totalLiquidity accrued_pool) + 30000
    | Inl err \<Rightarrow> False) \<and>
   (case repay (operator_at 91) 4 70000 accrued_pool of
      Inr s' \<Rightarrow> unat (debt (agents s' 4)) = 50050000 - 70000 \<and>
                unat (principal (agents s' 4)) = 50000000 - 20000 \<and>
                unat (totalLiquidity s') = unat (totalLiquidity accrued_pool) + 70000 \<and>
                lastRepayment (agents s' 4) = 91
    | Inl err \<Rightarrow> False) \<and>
   repay (operator_at 91) 4 99000000 accrued_pool = repay (operator_at 91) 4 50050000 accrued_pool"
proof -
  have acc: "accrueInterest (operator_at 91) 4 accrued_pool = Inr accrued_pool"
    by (simp add: accrued_pool_eq operator_at_def contract_defs)
  have owed: "unat (debt (agents accrued_pool 4)) - unat (principal (agents accrued_pool 4)) = 50000"
    "unat (debt (agents accrued_pool 4)) = 50050000"
    "unat (principal (agents accrued_pool 4)) = 50000000"
    by (simp_all add: accrued_pool_eq)
  have d: "debt (agents accrued_pool 4) = 50050000" by (simp add: accrued_pool_eq)
  have now: "block_timestamp (operator_at 91) = 91" by (simp add: operator_at_def)
  obtain s' where ok1: "repay (operator_at 91) 4 30000 accrued_pool = Inr s'"
    by (simp add: accrued_pool_eq operator_at_def contract_defs)
  obtain s'' where ok2: "repay (operator_at 91) 4 70000 accrued_pool = Inr s''"
    by (simp add: accrued_pool_eq operator_at_def contract_defs)
  have r1: "unat (debt (agents s' 4)) = 50020000 \<and> unat (principal (agents s' 4)) = 50000000 \<and>
        unat (totalLiquidity s') = unat (totalLiquidity accrued_pool) + 30000"
    using C3_repay [where e = "operator_at 91" and a = 4 and amount = 30000
        and s = accrued_pool and s' = s', THEN conjunct1, rule_format, OF ok1]
    by (clarsimp simp: acc owed now)
  have r2: "unat (debt (agents s'' 4)) = 50050000 - 70000 \<and>
        unat (principal (agents s'' 4)) = 50000000 - 20000 \<and>
        unat (totalLiquidity s'') = unat (totalLiquidity accrued_pool) + 70000 \<and>
        lastRepayment (agents s'' 4) = 91"
    using C3_repay [where e = "operator_at 91" and a = 4 and amount = 70000
        and s = accrued_pool and s' = s'', THEN conjunct1, rule_format, OF ok2]
    by (clarsimp simp: acc owed now)
  have r3: "repay (operator_at 91) 4 99000000 accrued_pool
              = repay (operator_at 91) 4 50050000 accrued_pool"
    using C3_repay [where e = "operator_at 91" and a = 4 and amount = 99000000
        and s = accrued_pool and ?s1.0 = accrued_pool, THEN conjunct2, THEN conjunct1, rule_format,
        OF conjI [OF acc]]
    unfolding d by simp
  show ?thesis using acc owed(1) r1 r2 r3 by (simp add: ok1 ok2)
qed

text \<open>
  C4. Every call of the contract that goes through (the ledger operations onboardAgent,
  setCreditLimit, borrow, repay, freeze, unfreeze and interest accrual, and deposit,
  withdraw, setAgent as well) preserves \<open>principal \<le> debt\<close> for every account; onboarding
  starts an account at \<open>debt = principal = 0\<close>; hence the invariant holds after every run
  from the deployed contract.
\<close>

theorem C4_debt_covers_principal:
  "(debt_covers_principal s \<and> exec e c s = Inr s' \<longrightarrow> debt_covers_principal s') \<and>
   (onboardAgent e a limit s = Inr s' \<longrightarrow> debt (agents s' a) = 0 \<and> principal (agents s' a) = 0) \<and>
   debt_covers_principal (run txs (constructor e0 agent))"
  using dcp_exec [of s e c s'] onboardAgent_fresh [of e a limit s s']
    dcp_run [OF dcp_constructor, of txs e0 agent]
  by blast

theorem C4_debt_covers_principal_witness:
  "debt_covers_principal accrued_pool \<and>
   (case exec (operator_at 91) (Repay 4 70000) accrued_pool of
      Inr s' \<Rightarrow> debt_covers_principal s' \<and> debt (agents s' 4) = 49980000 \<and>
                principal (agents s' 4) = 49980000
    | Inl err \<Rightarrow> False) \<and>
   (case onboardAgent (operator_at 1) 5 7 accrued_pool of
      Inr s' \<Rightarrow> debt (agents s' 5) = 0 \<and> principal (agents s' 5) = 0
    | Inl err \<Rightarrow> False)"
proof -
  have inv: "debt_covers_principal accrued_pool"
    by (simp add: debt_covers_principal_def accrued_pool_eq zero_account_def)
  obtain s' where ok: "exec (operator_at 91) (Repay 4 70000) accrued_pool = Inr s'"
    and vals: "debt (agents s' 4) = 49980000" "principal (agents s' 4) = 49980000"
    by (simp add: accrued_pool_eq operator_at_def contract_defs)
  obtain s'' where ok2: "onboardAgent (operator_at 1) 5 7 accrued_pool = Inr s''"
    by (simp add: accrued_pool_eq operator_at_def contract_defs)
  have "debt_covers_principal s'"
    using C4_debt_covers_principal [where s = accrued_pool and e = "operator_at 91"
        and c = "Repay 4 70000" and s' = s'] inv ok
    by simp
  moreover have "debt (agents s'' 5) = 0 \<and> principal (agents s'' 5) = 0"
    using C4_debt_covers_principal [where s = accrued_pool and e = "operator_at 1"
        and s' = s'' and a = 5 and limit = 7] ok2 by simp
  ultimately show ?thesis using inv ok ok2 vals by simp
qed

text \<open>
  C5 (as amended). \<open>availableCredit\<close> returns 0 if the account is inactive, or frozen, or
  \<open>creditLimit \<le> principal\<close>, and \<open>creditLimit - principal\<close> otherwise. \<open>borrow\<close> fails with
  \<^verbatim>\<open>Exceeds limit\<close> exactly when the caller is the clearing agent, the account is active and
  not frozen, the accrual completes, \<open>principal + amount\<close> fits in a \<^verbatim>\<open>uint256\<close> and
  \<open>principal + amount > creditLimit\<close>. The debt does not enter: headroom is governed by the
  principal. When \<open>principal + amount\<close> does not fit, such a call aborts with the arithmetic
  panic of the checked addition instead.
\<close>

theorem C5_credit:
  "availableCredit s a =
     (if \<not> active (agents s a) \<or> frozen (agents s a)
         \<or> creditLimit (agents s a) \<le> principal (agents s a) then 0
      else creditLimit (agents s a) - principal (agents s a)) \<and>
   unat (availableCredit s a) =
     (if \<not> active (agents s a) \<or> frozen (agents s a) then 0
      else unat (creditLimit (agents s a)) - unat (principal (agents s a))) \<and>
   (borrow e a amount s = Inl (Revert ''Exceeds limit'') \<longleftrightarrow>
      msg_sender e = credexAgent s \<and> active (agents s a) \<and> \<not> frozen (agents s a) \<and>
      (\<exists>s1. accrueInterest e a s = Inr s1) \<and>
      unat (principal (agents s a)) + unat amount < 2 ^ 256 \<and>
      unat (creditLimit (agents s a)) < unat (principal (agents s a)) + unat amount) \<and>
   (msg_sender e = credexAgent s \<and> active (agents s a) \<and> \<not> frozen (agents s a) \<and>
    2 ^ 256 \<le> unat (principal (agents s a)) + unat amount \<longrightarrow>
      borrow e a amount s = Inl ArithmeticPanic)"
proof (intro conjI impI)
  show "availableCredit s a =
     (if \<not> active (agents s a) \<or> frozen (agents s a)
         \<or> creditLimit (agents s a) \<le> principal (agents s a) then 0
      else creditLimit (agents s a) - principal (agents s a))"
    by (simp add: availableCredit_def Let_def)
  show "unat (availableCredit s a) =
     (if \<not> active (agents s a) \<or> frozen (agents s a) then 0
      else unat (creditLimit (agents s a)) - unat (principal (agents s a)))"
    by (rule availableCredit_unat)
  show "borrow e a amount s = Inl (Revert ''Exceeds limit'') \<longleftrightarrow>
      msg_sender e = credexAgent s \<and> active (agents s a) \<and> \<not> frozen (agents s a) \<and>
      (\<exists>s1. accrueInterest e a s = Inr s1) \<and>
      unat (principal (agents s a)) + unat amount < 2 ^ 256 \<and>
      unat (creditLimit (agents s a)) < unat (principal (agents s a)) + unat amount"
    by (rule borrow_ExceedsLimit_iff)
next
  assume "msg_sender e = credexAgent s \<and> active (agents s a) \<and> \<not> frozen (agents s a) \<and>
    2 ^ 256 \<le> unat (principal (agents s a)) + unat amount"
  then show "borrow e a amount s = Inl ArithmeticPanic"
    by (intro borrow_overflow) simp_all
qed

theorem C5_credit_witness:
  "unat (principal (agents accrued_pool 4)) = 50000000 \<and>
   unat (debt (agents accrued_pool 4)) = 50050000 \<and>
   unat (creditLimit (agents accrued_pool 4)) = 100000000 \<and>
   unat (availableCredit accrued_pool 4) = 50000000 \<and>
   borrow (operator_at 91) 4 50000001 accrued_pool = Inl (Revert ''Exceeds limit'') \<and>
   borrow (operator_at 91) 4 50000000 accrued_pool \<noteq> Inl (Revert ''Exceeds limit'') \<and>
   borrow (operator_at 91) 4 50000000 accrued_pool
     = Inr (transact (operator_at 91) (Borrow 4 50000000) accrued_pool) \<and>
   unat (debt (agents (transact (operator_at 91) (Borrow 4 50000000) accrued_pool) 4)) = 100050000 \<and>
   borrow (operator_at 91) 4 max_uint256 accrued_pool = Inl ArithmeticPanic"
proof -
  have st: "unat (principal (agents accrued_pool 4)) = 50000000"
    "unat (debt (agents accrued_pool 4)) = 50050000"
    "unat (creditLimit (agents accrued_pool 4)) = 100000000"
    "active (agents accrued_pool 4)" "\<not> frozen (agents accrued_pool 4)"
    "msg_sender (operator_at 91) = credexAgent accrued_pool"
    by (simp_all add: accrued_pool_eq operator_at_def)
  have acc: "accrueInterest (operator_at 91) 4 accrued_pool = Inr accrued_pool"
    by (simp add: accrued_pool_eq operator_at_def contract_defs)
  then have ex: "\<exists>s1. accrueInterest (operator_at 91) 4 accrued_pool = Inr s1" by blast
  have big: "unat max_uint256 = 2 ^ 256 - 1" by (simp add: max_uint256_def)
  have a: "unat (availableCredit accrued_pool 4) = 50000000"
    using C5_credit [where s = accrued_pool and a = 4, THEN conjunct2, THEN conjunct1] st
    by simp
  have b: "borrow (operator_at 91) 4 50000001 accrued_pool = Inl (Revert ''Exceeds limit'')"
    using C5_credit [where s = accrued_pool and a = 4 and e = "operator_at 91"
        and amount = 50000001, THEN conjunct2, THEN conjunct2, THEN conjunct1] st ex
    by simp
  have c: "borrow (operator_at 91) 4 50000000 accrued_pool \<noteq> Inl (Revert ''Exceeds limit'')"
    using C5_credit [where s = accrued_pool and a = 4 and e = "operator_at 91"
        and amount = 50000000, THEN conjunct2, THEN conjunct2, THEN conjunct1] st ex
    by simp
  have d: "borrow (operator_at 91) 4 max_uint256 accrued_pool = Inl ArithmeticPanic"
    using C5_credit [where s = accrued_pool and a = 4 and e = "operator_at 91"
        and amount = max_uint256, THEN conjunct2, THEN conjunct2, THEN conjunct2] st big
    by simp
  have e: "borrow (operator_at 91) 4 50000000 accrued_pool
     = Inr (transact (operator_at 91) (Borrow 4 50000000) accrued_pool) \<and>
   unat (debt (agents (transact (operator_at 91) (Borrow 4 50000000) accrued_pool) 4)) = 100050000"
    by (simp add: accrued_pool_eq operator_at_def contract_defs)
  show ?thesis using st(1,2,3) a b c d e by simp
qed

text \<open>
  C5 as stated fails where the addition overflows: the borrower of \<open>accrued_pool\<close> has
  principal 50000000 and limit 100000000; asking for \<open>2 ^ 256 - 1\<close> exceeds the limit, and
  the call aborts with an arithmetic panic, not with \<^verbatim>\<open>Exceeds limit\<close>.
\<close>

theorem C5_counterexample:
  "msg_sender (operator_at 91) = credexAgent accrued_pool \<and>
   active (agents accrued_pool 4) \<and> \<not> frozen (agents accrued_pool 4) \<and>
   accrueInterest (operator_at 91) 4 accrued_pool = Inr accrued_pool \<and>
   unat max_uint256 = 2 ^ 256 - 1 \<and>
   unat (creditLimit (agents accrued_pool 4))
     < unat (principal (agents accrued_pool 4)) + unat max_uint256 \<and>
   borrow (operator_at 91) 4 max_uint256 accrued_pool = Inl ArithmeticPanic \<and>
   borrow (operator_at 91) 4 max_uint256 accrued_pool \<noteq> Inl (Revert ''Exceeds limit'')"
  by (simp add: accrued_pool_eq operator_at_def contract_defs max_uint256_def)

text \<open>
  C6. \<open>deposit\<close> of a zero amount fails (\<^verbatim>\<open>Zero amount\<close>). A deposit that goes through
  mints exactly \<open>amount\<close> shares when \<open>totalShares = 0\<close>, and exactly
  \<open>floor (amount * totalShares / totalAssets)\<close> shares otherwise; the shares are credited to
  the caller and to \<open>totalShares\<close>, \<open>totalLiquidity\<close> grows by \<open>amount\<close>, and nothing else
  changes. A deposit goes through exactly when the amount is not zero, the token transfer
  returns, and no checked operation overflows or divides by zero. With 100 shares against 200
  of assets, depositing 50 mints 25 shares (the witness).
\<close>

theorem C6_deposit:
  "deposit e 0 s = Inl (Revert ''Zero amount'') \<and>
   (deposit e amount s = Inr s' \<longrightarrow>
      unat (lpShares s' (msg_sender e)) = unat (lpShares s (msg_sender e))
        + (if totalShares s = 0 then unat amount
           else unat amount * unat (totalShares s)
                div (unat (totalLiquidity s) + unat (totalDebt s))) \<and>
      unat (totalShares s') = unat (totalShares s)
        + (if totalShares s = 0 then unat amount
           else unat amount * unat (totalShares s)
                div (unat (totalLiquidity s) + unat (totalDebt s))) \<and>
      unat (totalLiquidity s') = unat (totalLiquidity s) + unat amount \<and>
      (\<forall>a. a \<noteq> msg_sender e \<longrightarrow> lpShares s' a = lpShares s a) \<and>
      agents s' = agents s \<and> globalTotalDebt s' = globalTotalDebt s) \<and>
   ((\<exists>s''. deposit e amount s = Inr s'') \<longleftrightarrow>
      amount \<noteq> 0 \<and> usdc_ok e \<and>
      unat (totalLiquidity s) + unat (totalDebt s) < 2 ^ 256 \<and>
      (totalShares s \<noteq> 0 \<longrightarrow>
         unat amount * unat (totalShares s) < 2 ^ 256 \<and>
         unat (totalLiquidity s) + unat (totalDebt s) \<noteq> 0) \<and>
      unat (lpShares s (msg_sender e))
        + (if totalShares s = 0 then unat amount
           else unat amount * unat (totalShares s)
                div (unat (totalLiquidity s) + unat (totalDebt s))) < 2 ^ 256 \<and>
      unat (totalShares s)
        + (if totalShares s = 0 then unat amount
           else unat amount * unat (totalShares s)
                div (unat (totalLiquidity s) + unat (totalDebt s))) < 2 ^ 256 \<and>
      unat (totalLiquidity s) + unat amount < 2 ^ 256)"
proof (intro conjI impI)
  show "deposit e 0 s = Inl (Revert ''Zero amount'')" by (rule deposit_zero)
next
  assume ok: "deposit e amount s = Inr s'"
  show "unat (lpShares s' (msg_sender e)) = unat (lpShares s (msg_sender e))
        + (if totalShares s = 0 then unat amount
           else unat amount * unat (totalShares s)
                div (unat (totalLiquidity s) + unat (totalDebt s)))"
    and "unat (totalShares s') = unat (totalShares s)
        + (if totalShares s = 0 then unat amount
           else unat amount * unat (totalShares s)
                div (unat (totalLiquidity s) + unat (totalDebt s)))"
    and "unat (totalLiquidity s') = unat (totalLiquidity s) + unat amount"
    and "\<forall>a. a \<noteq> msg_sender e \<longrightarrow> lpShares s' a = lpShares s a"
    and "agents s' = agents s" and "globalTotalDebt s' = globalTotalDebt s"
    using deposit_Inr [OF ok] by (simp_all add: totalDebt_def)
next
  show "(\<exists>s''. deposit e amount s = Inr s'') \<longleftrightarrow>
      amount \<noteq> 0 \<and> usdc_ok e \<and>
      unat (totalLiquidity s) + unat (totalDebt s) < 2 ^ 256 \<and>
      (totalShares s \<noteq> 0 \<longrightarrow>
         unat amount * unat (totalShares s) < 2 ^ 256 \<and>
         unat (totalLiquidity s) + unat (totalDebt s) \<noteq> 0) \<and>
      unat (lpShares s (msg_sender e))
        + (if totalShares s = 0 then unat amount
           else unat amount * unat (totalShares s)
                div (unat (totalLiquidity s) + unat (totalDebt s))) < 2 ^ 256 \<and>
      unat (totalShares s)
        + (if totalShares s = 0 then unat amount
           else unat amount * unat (totalShares s)
                div (unat (totalLiquidity s) + unat (totalDebt s))) < 2 ^ 256 \<and>
      unat (totalLiquidity s) + unat amount < 2 ^ 256"
    unfolding totalDebt_def by (rule deposit_succeeds_iff)
qed

theorem C6_deposit_witness:
  "totalShares doubled_pool = 100 \<and> totalAssets doubled_pool = Inr 200 \<and>
   (case deposit (provider_at 60001) 50 doubled_pool of
      Inr s' \<Rightarrow> unat (lpShares s' 3) = unat (lpShares doubled_pool 3) + 25 \<and>
                unat (totalShares s') = 125 \<and> unat (totalLiquidity s') = 50 \<and>
                deposit (provider_at 60001) 0 doubled_pool = Inl (Revert ''Zero amount'')
    | Inl err \<Rightarrow> False)"
proof -
  obtain s' where ok: "deposit (provider_at 60001) 50 doubled_pool = Inr s'"
    by (simp add: doubled_pool_eq provider_at_def contract_defs)
  have "unat (lpShares s' 3) = unat (lpShares doubled_pool 3) + 25 \<and>
        unat (totalShares s') = 125 \<and> unat (totalLiquidity s') = 50 \<and>
        deposit (provider_at 60001) 0 doubled_pool = Inl (Revert ''Zero amount'')"
    using C6_deposit [where e = "provider_at 60001" and s = doubled_pool and amount = 50
        and s' = s', THEN conjunct2, THEN conjunct1] ok
      C6_deposit [where e = "provider_at 60001" and s = doubled_pool, THEN conjunct1]
    by (simp add: doubled_pool_eq provider_at_def totalDebt_def)
  then show ?thesis
    by (simp add: ok) (simp add: doubled_pool_eq contract_defs)
qed

text \<open>
  C7 (as amended). \<open>withdraw\<close> fails with \<^verbatim>\<open>Zero shares\<close> when \<open>shares = 0\<close>, and with
  \<^verbatim>\<open>Insufficient shares\<close> when the caller holds fewer shares than requested. Otherwise, when
  \<open>totalShares \<noteq> 0\<close> and \<open>shares * totalAssets\<close> fits in a \<^verbatim>\<open>uint256\<close>, with
  \<open>assets = floor (shares * totalAssets / totalShares)\<close> it fails with
  \<^verbatim>\<open>Insufficient pool liquidity\<close> whenever \<open>assets > totalLiquidity\<close>, however many shares the
  caller holds; when the product does not fit it aborts with an arithmetic panic. A
  withdrawal that goes through lowers the caller's shares and \<open>totalShares\<close> by \<open>shares\<close> and
  \<open>totalLiquidity\<close> by \<open>assets\<close>, and changes nothing else.
\<close>

theorem C7_withdraw:
  "withdraw e 0 s = Inl (Revert ''Zero shares'') \<and>
   (shares \<noteq> 0 \<and> lpShares s (msg_sender e) < shares \<longrightarrow>
      withdraw e shares s = Inl (Revert ''Insufficient shares'')) \<and>
   (shares \<noteq> 0 \<and> shares \<le> lpShares s (msg_sender e) \<and> totalShares s \<noteq> 0 \<and>
    unat shares * (unat (totalLiquidity s) + unat (totalDebt s)) < 2 ^ 256 \<and>
    unat (totalLiquidity s)
      < unat shares * (unat (totalLiquidity s) + unat (totalDebt s)) div unat (totalShares s) \<longrightarrow>
      withdraw e shares s = Inl (Revert ''Insufficient pool liquidity'')) \<and>
   (shares \<noteq> 0 \<and> shares \<le> lpShares s (msg_sender e) \<and>
    2 ^ 256 \<le> unat shares * (unat (totalLiquidity s) + unat (totalDebt s)) \<longrightarrow>
      withdraw e shares s = Inl ArithmeticPanic) \<and>
   (withdraw e shares s = Inr s' \<longrightarrow>
      unat (lpShares s' (msg_sender e)) = unat (lpShares s (msg_sender e)) - unat shares \<and>
      unat (totalShares s') = unat (totalShares s) - unat shares \<and>
      unat (totalLiquidity s') = unat (totalLiquidity s)
        - unat shares * (unat (totalLiquidity s) + unat (totalDebt s)) div unat (totalShares s) \<and>
      unat shares \<le> unat (lpShares s (msg_sender e)) \<and>
      unat shares \<le> unat (totalShares s) \<and>
      unat shares * (unat (totalLiquidity s) + unat (totalDebt s)) div unat (totalShares s)
        \<le> unat (totalLiquidity s) \<and>
      (\<forall>a. a \<noteq> msg_sender e \<longrightarrow> lpShares s' a = lpShares s a) \<and>
      agents s' = agents s \<and> globalTotalDebt s' = globalTotalDebt s)"
  using withdraw_Inr [of e shares s s'] withdraw_short [of shares s e]
    withdraw_locked [of shares s e] withdraw_overflow [of shares s e]
  by (simp add: withdraw_zero totalDebt_def)

theorem C7_withdraw_witness:
  "unat (lpShares locked_pool 3) = 100 \<and> unat (totalLiquidity locked_pool) = 40 \<and>
   withdraw (provider_at 2) 0 locked_pool = Inl (Revert ''Zero shares'') \<and>
   withdraw (provider_at 2) 101 locked_pool = Inl (Revert ''Insufficient shares'') \<and>
   withdraw (provider_at 2) 100 locked_pool = Inl (Revert ''Insufficient pool liquidity'') \<and>
   (case withdraw (provider_at 2) 40 locked_pool of
      Inr s' \<Rightarrow> unat (lpShares s' 3) = 60 \<and> unat (totalShares s') = 60 \<and>
                unat (totalLiquidity s') = 0
    | Inl err \<Rightarrow> False) \<and>
   withdraw (provider_at 2) (2 ^ 200) huge_pool = Inl ArithmeticPanic"
proof -
  have st: "lpShares locked_pool (msg_sender (provider_at 2)) = 100" "totalShares locked_pool = 100"
    "totalLiquidity locked_pool = 40" "totalDebt locked_pool = 60"
    "lpShares locked_pool 3 = 100" "msg_sender (provider_at 2) = 3"
    by (simp_all add: locked_pool_eq provider_at_def totalDebt_def)
  have hst: "lpShares huge_pool (msg_sender (provider_at 2)) = 2 ^ 200"
    "totalLiquidity huge_pool = 0" "totalDebt huge_pool = 2 ^ 200"
    by (simp_all add: huge_pool_eq provider_at_def totalDebt_def)
  have a: "withdraw (provider_at 2) 0 locked_pool = Inl (Revert ''Zero shares'')"
    using C7_withdraw [where e = "provider_at 2" and s = locked_pool] by simp
  have b: "withdraw (provider_at 2) 101 locked_pool = Inl (Revert ''Insufficient shares'')"
    using C7_withdraw [where e = "provider_at 2" and s = locked_pool and shares = 101] st
    by simp
  have c: "withdraw (provider_at 2) 100 locked_pool = Inl (Revert ''Insufficient pool liquidity'')"
    using C7_withdraw [where e = "provider_at 2" and s = locked_pool and shares = 100] st
    by simp
  obtain s' where ok: "withdraw (provider_at 2) 40 locked_pool = Inr s'"
    by (simp add: locked_pool_eq provider_at_def contract_defs)
  have d: "unat (lpShares s' 3) = 60 \<and> unat (totalShares s') = 60 \<and> unat (totalLiquidity s') = 0"
    using C7_withdraw [where e = "provider_at 2" and s = locked_pool and shares = 40
        and s' = s'] st ok
    by simp
  have e: "withdraw (provider_at 2) (2 ^ 200) huge_pool = Inl ArithmeticPanic"
    using C7_withdraw [where e = "provider_at 2" and s = huge_pool and shares = "2 ^ 200"] hst
    by simp
  show ?thesis using st a b c d e by (simp add: ok)
qed

text \<open>
  C7 as stated fails where the product overflows: in \<open>huge_pool\<close> the provider holds all
  \<open>2 ^ 200\<close> shares, everything is lent out, so the shares are worth \<open>2 ^ 200 > 0 =
  totalLiquidity\<close>; the withdrawal aborts with an arithmetic panic in \<open>shares * totalAssets\<close>,
  not with \<^verbatim>\<open>Insufficient pool liquidity\<close>.
\<close>

theorem C7_counterexample:
  "(2 ^ 200 :: uint256) \<noteq> 0 \<and> 2 ^ 200 \<le> lpShares huge_pool (msg_sender (provider_at 2)) \<and>
   unat (totalLiquidity huge_pool)
     < unat (2 ^ 200 :: uint256) * (unat (totalLiquidity huge_pool) + unat (totalDebt huge_pool))
         div unat (totalShares huge_pool) \<and>
   withdraw (provider_at 2) (2 ^ 200) huge_pool = Inl ArithmeticPanic \<and>
   withdraw (provider_at 2) (2 ^ 200) huge_pool \<noteq> Inl (Revert ''Insufficient pool liquidity'')"
  by (simp add: huge_pool_eq provider_at_def contract_defs)

text \<open>
  C8. \<open>calculateGrowthLimit\<close> of a credit limit is \<open>floor (limit * 110 / 100)\<close> capped at
  \<open>MAX_LIMIT\<close>; it never exceeds \<open>MAX_LIMIT\<close>, and at \<open>MAX_LIMIT\<close> it yields \<open>MAX_LIMIT\<close>.
  Whenever \<open>handleRepay\<close> answers with success, whatever the amount, the contract's
  \<open>repay\<close> went through (it leaves the limit alone) and then the limit of the account is the
  larger of the limit read before the repayment and its grown value: \<open>setCreditLimit\<close> is
  called with the grown value when that is strictly greater, and nothing is written
  otherwise.
\<close>

theorem C8_limit_growth:
  "calculateGrowthLimit (uint (l :: uint256)) = min (uint l * 110 div 100) MAX_LIMIT \<and>
   calculateGrowthLimit L \<le> MAX_LIMIT \<and>
   calculateGrowthLimit MAX_LIMIT = MAX_LIMIT \<and>
   (handleRepay w a amount s = (r, s') \<and> success r \<longrightarrow>
      (\<exists>agent s1 amt s2.
         ensureActiveAgent w 0 a s = (Inr agent, s1) \<and>
         repay (env_at w 4) a amt s1 = Inr s2 \<and>
         creditLimit (agents s2 a) = creditLimit (agents s1 a) \<and>
         creditLimit agent = creditLimit (agents s1 a) \<and>
         uint (creditLimit (agents s' a))
           = max (uint (creditLimit (agents s1 a)))
                 (calculateGrowthLimit (uint (creditLimit (agents s1 a)))) \<and>
         (calculateGrowthLimit (uint (creditLimit (agents s1 a))) \<le> uint (creditLimit (agents s1 a))
            \<longrightarrow> s' = s2) \<and>
         (uint (creditLimit (agents s1 a)) < calculateGrowthLimit (uint (creditLimit (agents s1 a)))
            \<longrightarrow> (\<exists>l'. setCreditLimit (env_at w 5) a l' s2 = Inr s' \<and>
                      uint l' = calculateGrowthLimit (uint (creditLimit (agents s1 a)))))))"
proof (intro conjI impI)
  show "calculateGrowthLimit (uint l) = min (uint l * 110 div 100) MAX_LIMIT"
    by (rule calculateGrowthLimit_uint)
  show "calculateGrowthLimit L \<le> MAX_LIMIT" by (rule calculateGrowthLimit_le)
  show "calculateGrowthLimit MAX_LIMIT = MAX_LIMIT" by (rule calculateGrowthLimit_cap)
next
  assume "handleRepay w a amount s = (r, s') \<and> success r"
  then have h: "handleRepay w a amount s = (r, s')" and ok: "success r" by simp_all
  from h ok show "\<exists>agent s1 amt s2.
         ensureActiveAgent w 0 a s = (Inr agent, s1) \<and>
         repay (env_at w 4) a amt s1 = Inr s2 \<and>
         creditLimit (agents s2 a) = creditLimit (agents s1 a) \<and>
         creditLimit agent = creditLimit (agents s1 a) \<and>
         uint (creditLimit (agents s' a))
           = max (uint (creditLimit (agents s1 a)))
                 (calculateGrowthLimit (uint (creditLimit (agents s1 a)))) \<and>
         (calculateGrowthLimit (uint (creditLimit (agents s1 a))) \<le> uint (creditLimit (agents s1 a))
            \<longrightarrow> s' = s2) \<and>
         (uint (creditLimit (agents s1 a)) < calculateGrowthLimit (uint (creditLimit (agents s1 a)))
            \<longrightarrow> (\<exists>l'. setCreditLimit (env_at w 5) a l' s2 = Inr s' \<and>
                      uint l' = calculateGrowthLimit (uint (creditLimit (agents s1 a)))))"
  proof (cases rule: handleRepay_success)
    case (1 amountWei agent s1 amt s2)
    have c1: "creditLimit agent = creditLimit (agents s1 a)"
      using ensureActiveAgent_Inr [OF 1(2)] by simp
    have c2: "creditLimit (agents s2 a) = creditLimit (agents s1 a)"
      by (rule repay_creditLimit [OF 1(4)])
    have c3: "creditLimit agent = creditLimit (agents s2 a)" using c1 c2 by simp
    note g = growLimit_Inr [OF 1(5) c3, unfolded c2]
    show ?thesis
      by (intro exI [of _ agent] exI [of _ s1] exI [of _ amt] exI [of _ s2] conjI)
        (rule 1(2) 1(4) c2 c1 g)+
  qed
qed

theorem C8_limit_growth_witness:
  "uint (creditLimit (agents accrued_pool 4)) = 100000000 \<and>
   calculateGrowthLimit 100000000 = 110000000 \<and>
   success (fst (handleRepay example_world 4 ''0.07'' accrued_pool)) \<and>
   uint (creditLimit (agents (snd (handleRepay example_world 4 ''0.07'' accrued_pool)) 4))
     = 110000000 \<and>
   calculateGrowthLimit 9999999999 = MAX_LIMIT \<and>
   calculateGrowthLimit (calculateGrowthLimit MAX_LIMIT) = MAX_LIMIT"
proof -
  obtain r s' where h: "handleRepay example_world 4 ''0.07'' accrued_pool = (r, s')"
    and ok: "success r"
    by (simp add: repay_007)
  have lim: "uint (creditLimit (agents accrued_pool 4)) = 100000000"
    "active (agents accrued_pool 4)"
    by (simp_all add: accrued_pool_eq)
  have ens: "ensureActiveAgent example_world 0 4 accrued_pool
               = (Inr (agents accrued_pool 4), accrued_pool)"
    by (simp add: handler_defs env_at_example accrued_pool_eq operator_at_def contract_defs)
  note c8 = C8_limit_growth [where w = example_world and a = 4 and amount = "''0.07''"
      and s = accrued_pool and r = r and s' = s']
  have g: "calculateGrowthLimit 100000000 = 110000000"
    using c8 [where l = 100000000, THEN conjunct1] by (simp add: MAX_LIMIT_def)
  have g2: "calculateGrowthLimit 9999999999 = MAX_LIMIT"
    using c8 [where l = 9999999999, THEN conjunct1] by (simp add: MAX_LIMIT_def)
  have cap: "calculateGrowthLimit MAX_LIMIT = MAX_LIMIT"
    using c8 [THEN conjunct2, THEN conjunct2, THEN conjunct1] .
  have "uint (creditLimit (agents s' 4)) = 110000000"
    using c8 [THEN conjunct2, THEN conjunct2, THEN conjunct2] h ok
    by (auto simp: ens lim g)
  then show ?thesis using lim g g2 cap ok by (simp add: h)
qed

text \<open>
  C9 (as amended). For every identity whose account is already active, \<open>handleOnboard\<close>
  writes nothing to the ledger and answers with \<open>success = false\<close>; when the state could be
  read, the message is \<^verbatim>\<open>Agent already onboarded\<close> and the data carry the existing debt
  (with pending interest) and credit limit.
\<close>

theorem C9_already_onboarded:
  "(active (agents s a) \<longrightarrow>
      \<not> success (fst (handleOnboard w k a agentId s)) \<and> snd (handleOnboard w k a agentId s) = s) \<and>
   (active (agents s a) \<and> getAgentState (env_at w k) s a = Inr existing \<longrightarrow>
      handleOnboard w k a agentId s =
        (\<lparr>success = False, message = Some (Text ''Agent already onboarded''),
          data = Some (ExistingAccount (uint (debt existing)) (uint (creditLimit (agents s a))))\<rparr>,
         s))"
proof (intro conjI impI)
  assume act: "active (agents s a)"
  show "\<not> success (fst (handleOnboard w k a agentId s))"
    and "snd (handleOnboard w k a agentId s) = s"
    using act handleOnboard_active [of w k s a _ agentId]
    by (cases "getAgentState (env_at w k) s a"; simp add: handleOnboard_def failed_def)+
next
  assume "active (agents s a) \<and> getAgentState (env_at w k) s a = Inr existing"
  then show "handleOnboard w k a agentId s =
        (\<lparr>success = False, message = Some (Text ''Agent already onboarded''),
          data = Some (ExistingAccount (uint (debt existing)) (uint (creditLimit (agents s a))))\<rparr>,
         s)"
    by (simp add: handleOnboard_active)
qed

theorem C9_already_onboarded_witness:
  "active (agents accrued_pool 4) \<and>
   handleOnboard example_world 0 4 ''0'' accrued_pool =
     (\<lparr>success = False, message = Some (Text ''Agent already onboarded''),
       data = Some (ExistingAccount 50050000 100000000)\<rparr>, accrued_pool) \<and>
   \<not> success (fst (handleOnboard example_world 0 4 ''7'' accrued_pool)) \<and>
   snd (handleOnboard example_world 0 4 ''7'' accrued_pool) = accrued_pool"
proof -
  have act: "active (agents accrued_pool 4)" by (simp add: accrued_pool_eq)
  have lim: "uint (creditLimit (agents accrued_pool 4)) = 100000000"
    by (simp add: accrued_pool_eq)
  obtain existing where st: "getAgentState (env_at example_world 0) accrued_pool 4 = Inr existing"
    and d: "uint (debt existing) = 50050000"
    by (simp add: env_at_example getAgentState_def pendingInterest_def accrued_pool_eq
        operator_at_def contract_defs)
  have a: "handleOnboard example_world 0 4 ''0'' accrued_pool =
     (\<lparr>success = False, message = Some (Text ''Agent already onboarded''),
       data = Some (ExistingAccount 50050000 100000000)\<rparr>, accrued_pool)"
    using C9_already_onboarded [where s = accrued_pool and a = 4 and w = example_world
        and k = 0 and existing = existing and agentId = "''0''", THEN conjunct2] act st
    by (simp add: d lim)
  have b: "\<not> success (fst (handleOnboard example_world 0 4 ''7'' accrued_pool)) \<and>
      snd (handleOnboard example_world 0 4 ''7'' accrued_pool) = accrued_pool"
    using C9_already_onboarded [where s = accrued_pool and a = 4 and w = example_world
        and k = 0 and agentId = "''7''", THEN conjunct1] act
    by simp
  show ?thesis using act a b by simp
qed

text \<open>
  C9 as stated fails: for the active borrower of \<open>accrued_pool\<close> the response has
  \<open>success = False\<close>, on which \<^verbatim>\<open>ensureActiveAgent\<close> throws and the HTTP route answers 400.
\<close>

theorem C9_counterexample:
  "active (agents accrued_pool 4) \<and>
   getAgentState (env_at example_world 0) accrued_pool 4 = Inr (agents accrued_pool 4) \<and>
   success (fst (handleOnboard example_world 0 4 ''0'' accrued_pool)) = False \<and>
   message (fst (handleOnboard example_world 0 4 ''0'' accrued_pool))
     = Some (Text ''Agent already onboarded'')"
  by (simp add: handler_defs env_at_example accrued_pool_eq operator_at_def contract_defs)




end
